theory Spec2Isabelle
  imports Complex_Main "HOL-Library.AList"
begin

section \<open>Python values, errors and strings\<close>

text \<open>
  The script \<^verbatim>\<open>evaluate_paraphrase_detection_wmt19_paraphrases_de_en.py\<close> is embedded
  function by function. Every exception the script can raise is a value of \<open>error\<close>;
  a fallible computation has type \<open>error + 'a\<close> with \<open>Inl\<close> the exception. The script
  has no \<^verbatim>\<open>try\<close>, so an \<open>Inl\<close> travels unchanged to the result of \<open>main\<close>.
\<close>

datatype error =
    KeyError string
  | TypeError
  | IndexError
  | ValueError
  | AttributeError
  | UnboundLocalError
  | OSError

definition ebind :: "error + 'a \<Rightarrow> ('a \<Rightarrow> error + 'b) \<Rightarrow> error + 'b" where
  "ebind m f = (case m of Inl e \<Rightarrow> Inl e | Inr x \<Rightarrow> f x)"

text \<open>What \<^verbatim>\<open>json.load\<close> returns; Python floats are read as real numbers.\<close>

datatype json =
    JNull
  | JBool bool
  | JInt int
  | JFloat real
  | JString string
  | JArray "json list"
  | JObject "(string \<times> json) list"

text \<open>
  A \<^verbatim>\<open>dict\<close> is an association list in insertion order whose keys are distinct.
  \<open>getitem d k\<close> is \<^verbatim>\<open>d[k]\<close> for a string \<open>k\<close>: a missing key is a
  \<^verbatim>\<open>KeyError\<close>, and subscripting a list, a string or a scalar with a string is a
  \<^verbatim>\<open>TypeError\<close>.
\<close>

fun getitem :: "json \<Rightarrow> string \<Rightarrow> error + json" where
  "getitem (JObject kvs) k = (case map_of kvs k of None \<Rightarrow> Inl (KeyError k) | Some v \<Rightarrow> Inr v)"
| "getitem _ k = Inl TypeError"

text \<open>\<^verbatim>\<open>d.keys()\<close>: only a dict has the method.\<close>

fun keys :: "json \<Rightarrow> error + string list" where
  "keys (JObject kvs) = Inr (map fst kvs)"
| "keys _ = Inl AttributeError"

fun startswith :: "string \<Rightarrow> string \<Rightarrow> bool" where
  "startswith s [] = True"
| "startswith [] (p # ps) = False"
| "startswith (c # cs) (p # ps) = (c = p \<and> startswith cs ps)"

text \<open>\<open>contains s sub\<close> is the Python test \<^verbatim>\<open>sub in s\<close> on strings.\<close>

fun contains :: "string \<Rightarrow> string \<Rightarrow> bool" where
  "contains [] sub = (sub = [])"
| "contains (c # cs) sub = (startswith (c # cs) sub \<or> contains cs sub)"

text \<open>\<^verbatim>\<open>os.path.basename\<close> and \<^verbatim>\<open>os.path.dirname\<close> of \<^verbatim>\<open>posixpath\<close>.\<close>

definition basename :: "string \<Rightarrow> string" where
  "basename p = rev (takeWhile (\<lambda>c. c \<noteq> CHR ''/'') (rev p))"

definition dirname :: "string \<Rightarrow> string" where
  "dirname p =
     (let head = rev (dropWhile (\<lambda>c. c \<noteq> CHR ''/'') (rev p))
      in if head \<noteq> [] \<and> \<not> list_all (\<lambda>c. c = CHR ''/'') head
         then rev (dropWhile (\<lambda>c. c = CHR ''/'') (rev head))
         else head)"

definition is_digit :: "char \<Rightarrow> bool" where
  "is_digit c = (c \<in> set ''0123456789'')"

text \<open>
  \<^verbatim>\<open>re.search(r"(ML)([0-9]*)", s)\<close>: the leftmost \<^verbatim>\<open>ML\<close> and the longest run
  of digits after it. The result is \<^verbatim>\<open>groups()[1]\<close> of the match, \<open>None\<close> when
  there is no match.
\<close>

fun re_search_ML :: "string \<Rightarrow> string option" where
  "re_search_ML [] = None"
| "re_search_ML (c # cs) =
     (if startswith (c # cs) ''ML'' then Some (takeWhile is_digit (drop 1 cs))
      else re_search_ML cs)"

text \<open>
  \<^verbatim>\<open>int(s)\<close> for a string of ASCII digits, which is all the group above can hold:
  the empty string is a \<^verbatim>\<open>ValueError\<close>. (The interpreter's limit on the number of
  digits of very long numerals is left out.)
\<close>

definition digit_val :: "char \<Rightarrow> nat" where
  "digit_val c = of_char c - 48"

definition py_int :: "string \<Rightarrow> error + nat" where
  "py_int s = (if s = [] then Inl ValueError
               else Inr (foldl (\<lambda>n c. 10 * n + digit_val c) 0 s))"

section \<open>Feature building\<close>

record InputExample =
  guid :: string
  text_a :: json
  text_b :: json
  language :: string
  label :: string

record InputFeatures =
  input_ids :: "int list"
  attention_mask :: "int list"
  token_type_ids :: "int list"
  label_id :: int

text \<open>
  A tokenizer is kept as the encoding it induces: for a maximum length and an example,
  the padded and truncated feature of the pair with its integer label. Subword
  splitting, the padding id and the truncation rule live inside it.
\<close>

type_synonym tokenizer = "nat \<Rightarrow> InputExample \<Rightarrow> InputFeatures"

text \<open>
  Modelled from the spec: \<^verbatim>\<open>convert_examples_to_features\<close> of
  \<^verbatim>\<open>paws_x/utils.py\<close>, which is not among the sources. The spec has it
  produce, for the examples in their order, one feature each (an ordered sequence of
  features whose order is that of the examples), with no failure case.
\<close>

definition convert_examples_to_features ::
  "tokenizer \<Rightarrow> nat \<Rightarrow> InputExample list \<Rightarrow> InputFeatures list" where
  "convert_examples_to_features tok max_length examples = map (tok max_length) examples"

text \<open>
  A \<^verbatim>\<open>TensorDataset\<close> of the four tensors; the script builds all four from one list of
  features, so they have the same number of rows. \<^verbatim>\<open>torch.tensor\<close> of a list of lists
  raises \<^verbatim>\<open>ValueError\<close> when the rows differ in length.
\<close>

record TensorDataset =
  all_input_ids :: "int list list"
  all_attention_mask :: "int list list"
  all_token_type_ids :: "int list list"
  all_labels :: "int list"

definition same_width :: "'a list list \<Rightarrow> bool" where
  "same_width rows = (case rows of [] \<Rightarrow> True | r # rs \<Rightarrow> list_all (\<lambda>x. length x = length r) rs)"

definition torch_tensor :: "int list list \<Rightarrow> error + int list list" where
  "torch_tensor rows = (if same_width rows then Inr rows else Inl ValueError)"

text \<open>One \<^verbatim>\<open>InputExample(...)\<close> of the first loop, its arguments read in order.\<close>

definition make_example ::
  "(json \<Rightarrow> string) \<Rightarrow> json \<Rightarrow> string \<Rightarrow> string \<Rightarrow> string \<Rightarrow> error + InputExample" where
  "make_example str store key side lang =
     ebind (getitem store key) (\<lambda>r1.
     ebind (getitem r1 ''sentence_original'') (\<lambda>orig.
     ebind (getitem orig side) (\<lambda>a.
     ebind (getitem store key) (\<lambda>r2.
     ebind (getitem r2 ''sentence_paraphrase'') (\<lambda>para.
     ebind (getitem para side) (\<lambda>b.
     ebind (getitem store key) (\<lambda>r3.
     ebind (getitem r3 ''gold_label'') (\<lambda>g.
       Inr \<lparr>guid = key, text_a = a, text_b = b, language = lang, label = str g\<rparr>))))))))"

text \<open>\<^verbatim>\<open>for key in store.keys()\<close>: both lists grow by one example per key.\<close>

fun examples_loop ::
  "(json \<Rightarrow> string) \<Rightarrow> json \<Rightarrow> string list \<Rightarrow> InputExample list \<times> InputExample list
     \<Rightarrow> error + (InputExample list \<times> InputExample list)" where
  "examples_loop str store [] acc = Inr acc"
| "examples_loop str store (key # ks) acc =
     ebind (make_example str store key ''source'' ''de'') (\<lambda>es.
     ebind (make_example str store key ''target'' ''en'') (\<lambda>et.
       examples_loop str store ks (fst acc @ [es], snd acc @ [et])))"

text \<open>The body of \<^verbatim>\<open>for examples in [examples_source, examples_target]\<close>.\<close>

definition build_dataset :: "tokenizer \<Rightarrow> nat \<Rightarrow> InputExample list \<Rightarrow> error + TensorDataset" where
  "build_dataset tok max_seq_length examples =
     (let features = convert_examples_to_features tok max_seq_length examples in
      ebind (torch_tensor (map input_ids features)) (\<lambda>ids.
      ebind (torch_tensor (map attention_mask features)) (\<lambda>mask.
      ebind (torch_tensor (map token_type_ids features)) (\<lambda>segs.
        Inr \<lparr>all_input_ids = ids, all_attention_mask = mask,
             all_token_type_ids = segs, all_labels = map label_id features\<rparr>))))"

fun datasets_loop ::
  "tokenizer \<Rightarrow> nat \<Rightarrow> InputExample list list \<Rightarrow> TensorDataset list \<Rightarrow> error + TensorDataset list" where
  "datasets_loop tok max_seq_length [] data_out = Inr data_out"
| "datasets_loop tok max_seq_length (examples # rest) data_out =
     ebind (build_dataset tok max_seq_length examples) (\<lambda>d.
       datasets_loop tok max_seq_length rest (data_out @ [d]))"

text \<open>
  \<open>str\<close> is Python's builtin \<^verbatim>\<open>str\<close> on the gold label, taken as a parameter.
\<close>

definition prepare_prediction_data ::
  "(json \<Rightarrow> string) \<Rightarrow> json \<Rightarrow> tokenizer \<Rightarrow> nat \<Rightarrow> error + TensorDataset list" where
  "prepare_prediction_data str store tok max_seq_length =
     ebind (keys store) (\<lambda>ks.
     ebind (examples_loop str store ks ([], [])) (\<lambda>ex.
       datasets_loop tok max_seq_length [fst ex, snd ex] []))"

section \<open>Inference\<close>

text \<open>
  A batch is the four tensors of the dataset cut to the rows of the batch, so it has
  the type of the dataset. \<^verbatim>\<open>DataLoader\<close> with a \<^verbatim>\<open>SequentialSampler\<close>
  cuts the indices \<open>0, ..., len - 1\<close> into consecutive runs of \<open>batch_size\<close> (the
  last one shorter), reads the samples and stacks them; a batch size below one is a
  \<^verbatim>\<open>ValueError\<close>.
\<close>

type_synonym sample = "int list \<times> int list \<times> int list \<times> int"

definition len_dataset :: "TensorDataset \<Rightarrow> nat" where
  "len_dataset ds = length (all_input_ids ds)"

definition dataset_getitem :: "TensorDataset \<Rightarrow> nat \<Rightarrow> sample" where
  "dataset_getitem ds i =
     (all_input_ids ds ! i, all_attention_mask ds ! i, all_token_type_ids ds ! i, all_labels ds ! i)"

definition collate :: "sample list \<Rightarrow> TensorDataset" where
  "collate samples =
     \<lparr>all_input_ids = map (\<lambda>s. fst s) samples,
      all_attention_mask = map (\<lambda>s. fst (snd s)) samples,
      all_token_type_ids = map (\<lambda>s. fst (snd (snd s))) samples,
      all_labels = map (\<lambda>s. snd (snd (snd s))) samples\<rparr>"

function chunks :: "nat \<Rightarrow> 'a list \<Rightarrow> 'a list list" where
  "chunks n xs = (if n = 0 \<or> xs = [] then [] else take n xs # chunks n (drop n xs))"
  by pat_completeness auto
termination
  by (relation "measure (\<lambda>(n, xs). length xs)") auto

declare chunks.simps [simp del]

definition DataLoader :: "TensorDataset \<Rightarrow> int \<Rightarrow> error + TensorDataset list" where
  "DataLoader ds batch_size =
     (if batch_size \<le> 0 then Inl ValueError
      else Inr (map (\<lambda>idx. collate (map (dataset_getitem ds) idx))
                  (chunks (nat batch_size) [0..<len_dataset ds])))"

text \<open>
  The keyword arguments of the model call: a dict from argument name to a tensor or
  \<^verbatim>\<open>None\<close>. The model is the opaque classifier: from the arguments to the logits,
  one row of class scores per pair.
\<close>

datatype tensor = Long1 "int list" | Long2 "int list list"

type_synonym model = "(string \<times> tensor option) list \<Rightarrow> real list list"

definition model_inputs :: "string \<Rightarrow> TensorDataset \<Rightarrow> (string \<times> tensor option) list" where
  "model_inputs model_type batch =
     (let inputs = [(''input_ids'', Some (Long2 (all_input_ids batch))),
                    (''attention_mask'', Some (Long2 (all_attention_mask batch))),
                    (''labels'', Some (Long1 (all_labels batch)))]
      in if model_type \<noteq> ''distilbert''
         then AList.update ''token_type_ids''
                (if model_type \<in> set [''bert''] then Some (Long2 (all_token_type_ids batch))
                 else None) inputs
         else inputs)"

text \<open>
  \<^verbatim>\<open>np.append(preds, logits, axis=0)\<close> puts the new rows below the old ones and
  raises \<^verbatim>\<open>ValueError\<close> when the numbers of columns differ.
\<close>

definition np_append :: "real list list \<Rightarrow> real list list \<Rightarrow> error + real list list" where
  "np_append old new = (if same_width (old @ new) then Inr (old @ new) else Inl ValueError)"

text \<open>The batch loop of \<^verbatim>\<open>predict\<close>; \<open>acc\<close> is the variable \<^verbatim>\<open>preds\<close>.\<close>

fun predict_loop ::
  "model \<Rightarrow> string \<Rightarrow> TensorDataset list \<Rightarrow> real list list option \<Rightarrow> error + real list list option" where
  "predict_loop m model_type [] acc = Inr acc"
| "predict_loop m model_type (batch # rest) acc =
     (let logits = m (model_inputs model_type batch) in
      case acc of
        None \<Rightarrow> predict_loop m model_type rest (Some logits)
      | Some p \<Rightarrow> ebind (np_append p logits) (\<lambda>p'. predict_loop m model_type rest (Some p')))"

text \<open>
  \<^verbatim>\<open>scipy.special.softmax\<close> along a row, by its documented formula
  \<^verbatim>\<open>exp(x) / sum(exp(x))\<close>. Logits and probabilities are real numbers here, where the
  script computes in 32-bit floating point: rounding, infinities and NaN are not represented, so
  this development states where a probability comes from and where it is written, and nothing
  about its numeric value (its range, or its sum with the mass of the other class).
\<close>

definition softmax_row :: "real list \<Rightarrow> real list" where
  "softmax_row r = map (\<lambda>x. exp x / sum_list (map exp r)) r"

text \<open>
  \<^verbatim>\<open>softmax(preds, axis=1)[:, 1]\<close>. On \<^verbatim>\<open>None\<close> the call raises (an array of
  dimension zero has no axis 1: a \<^verbatim>\<open>ValueError\<close>); rows without a column 1 give an
  \<^verbatim>\<open>IndexError\<close>, rows without any column a \<^verbatim>\<open>ValueError\<close>.
\<close>

definition softmax_col1 :: "real list list option \<Rightarrow> error + real list" where
  "softmax_col1 acc =
     (case acc of
        None \<Rightarrow> Inl ValueError
      | Some rows \<Rightarrow>
          if list_all (\<lambda>r. 2 \<le> length r) rows then Inr (map (\<lambda>r. softmax_row r ! 1) rows)
          else if list_ex (\<lambda>r. r = []) rows then Inl ValueError
          else Inl IndexError)"

definition predict :: "model \<Rightarrow> string \<Rightarrow> TensorDataset list \<Rightarrow> error + real list" where
  "predict m model_type eval_dataloader =
     ebind (predict_loop m model_type eval_dataloader None) softmax_col1"

section \<open>The main loops\<close>

text \<open>
  The variables of \<^verbatim>\<open>main\<close> that outlive one loop iteration, the files on disk
  (a path to the JSON value stored there) and the messages passed to
  \<^verbatim>\<open>logger.info\<close>. \<open>preds = None\<close> stands for the unbound variable; a cache is
  \<open>None\<close> when it holds Python's \<^verbatim>\<open>None\<close>.
\<close>

record locals =
  wmt_source_cache :: "real list option"
  ar_source_cache :: "real list option"
  preds :: "real list option"
  files :: "string \<rightharpoonup> json"
  logged :: "string list"

text \<open>What \<^verbatim>\<open>main\<close> takes from outside: the builtin \<^verbatim>\<open>str\<close>, the loaders of
  the \<^verbatim>\<open>transformers\<close> classes (by model type and path) and \<^verbatim>\<open>args.batch_size\<close>.\<close>

record env =
  py_str :: "json \<Rightarrow> string"
  tokenizer_from_pretrained :: "string \<Rightarrow> string \<Rightarrow> error + tokenizer"
  model_from_pretrained :: "string \<Rightarrow> string \<Rightarrow> error + model"
  batch_size :: int

definition info :: "string \<Rightarrow> locals \<Rightarrow> locals" where
  "info msg st = st\<lparr>logged := logged st @ [msg]\<rparr>"

text \<open>
  \<^verbatim>\<open>for j, key in enumerate(store.keys()): store[key].update({entry: preds[j]})\<close>.
  The record is looked up first, then its \<^verbatim>\<open>update\<close> method, then \<^verbatim>\<open>preds[j]\<close>.
\<close>

fun merge_loop ::
  "string \<Rightarrow> real list option \<Rightarrow> nat \<Rightarrow> string list \<Rightarrow> (string \<times> json) list
     \<Rightarrow> error + (string \<times> json) list" where
  "merge_loop entry ps j [] kvs = Inr kvs"
| "merge_loop entry ps j (key # ks) kvs =
     (case map_of kvs key of
        None \<Rightarrow> Inl (KeyError key)
      | Some (JObject rec) \<Rightarrow>
          (case ps of
             None \<Rightarrow> Inl UnboundLocalError
           | Some v \<Rightarrow>
               if j < length v
               then merge_loop entry ps (Suc j) ks
                      (AList.update key (JObject (AList.update entry (JFloat (v ! j)) rec)) kvs)
               else Inl IndexError)
      | Some _ \<Rightarrow> Inl AttributeError)"

definition merge_results :: "string \<Rightarrow> real list option \<Rightarrow> json \<Rightarrow> error + json" where
  "merge_results entry ps store =
     (case store of
        JObject kvs \<Rightarrow> ebind (merge_loop entry ps 0 (map fst kvs) kvs) (\<lambda>kvs'. Inr (JObject kvs'))
      | _ \<Rightarrow> Inl AttributeError)"

text \<open>
  The caching step of the direction loop: the state after the \<^verbatim>\<open>if\<close>/\<^verbatim>\<open>else\<close>
  of one pass, before the results are written.
\<close>

definition cache_step ::
  "env \<Rightarrow> model \<Rightarrow> string \<Rightarrow> string \<Rightarrow> nat \<Rightarrow> TensorDataset \<Rightarrow> locals \<Rightarrow> error + locals" where
  "cache_step e m model_type filename i eval_dataset st =
     (if i = 1 \<or> (contains filename ''arp'' \<and> ar_source_cache st = None)
            \<or> (contains filename ''wmtp'' \<and> wmt_source_cache st = None)
      then
        ebind (DataLoader eval_dataset (batch_size e)) (\<lambda>eval_dataloader.
        ebind (predict m model_type eval_dataloader) (\<lambda>ps.
          let st1 = (info ''Initializing prediction'' st)\<lparr>preds := Some ps\<rparr> in
          Inr (if i = 0
               then (if contains filename ''arp'' then st1\<lparr>ar_source_cache := Some ps\<rparr>
                     else if contains filename ''wmtp'' then st1\<lparr>wmt_source_cache := Some ps\<rparr>
                     else st1)
               else st1)))
      else
        (let st1 = info ''Using cached results instead of re-computing'' st in
         Inr (if contains filename ''arp'' then st1\<lparr>preds := ar_source_cache st1\<rparr>
              else if contains filename ''wmtp'' then st1\<lparr>preds := wmt_source_cache st1\<rparr>
              else st1)))"

text \<open>One pass of \<^verbatim>\<open>for i, eval_dataset in enumerate(eval_datasets)\<close>.\<close>

definition direction_step ::
  "env \<Rightarrow> model \<Rightarrow> string \<Rightarrow> string \<Rightarrow> string \<Rightarrow> nat \<Rightarrow> TensorDataset \<Rightarrow> json \<times> locals
     \<Rightarrow> error + json \<times> locals" where
  "direction_step e m model_type metadata filename i eval_dataset s =
     ebind (cache_step e m model_type filename i eval_dataset (snd s)) (\<lambda>st.
       let entry = (if i = 0 then ''source'' else ''target'');
           entry = metadata @ ''_'' @ entry
       in ebind (merge_results entry (preds st) (fst s)) (\<lambda>store. Inr (store, st)))"

fun directions_loop ::
  "env \<Rightarrow> model \<Rightarrow> string \<Rightarrow> string \<Rightarrow> string \<Rightarrow> nat \<Rightarrow> TensorDataset list \<Rightarrow> json \<times> locals
     \<Rightarrow> error + json \<times> locals" where
  "directions_loop e m model_type metadata filename i [] s = Inr s"
| "directions_loop e m model_type metadata filename i (d # ds) s =
     ebind (direction_step e m model_type metadata filename i d s)
       (directions_loop e m model_type metadata filename (Suc i) ds)"

text \<open>
  One pass of \<^verbatim>\<open>for input_file in input_files\<close>. A path with no readable JSON file
  is an \<^verbatim>\<open>OSError\<close>; the dumped store is what a later \<^verbatim>\<open>json.load\<close> reads.
\<close>

definition file_step ::
  "env \<Rightarrow> tokenizer \<Rightarrow> model \<Rightarrow> string \<Rightarrow> string \<Rightarrow> nat \<Rightarrow> string \<Rightarrow> locals \<Rightarrow> error + locals" where
  "file_step e tok m model_type metadata max_seq_length input_file st =
     (let filename = basename input_file;
          st1 = info (''Processing file: '' @ input_file) st
      in case files st1 input_file of
           None \<Rightarrow> Inl OSError
         | Some store \<Rightarrow>
             ebind (prepare_prediction_data (py_str e) store tok max_seq_length) (\<lambda>eval_datasets.
             ebind (directions_loop e m model_type metadata filename 0 eval_datasets (store, st1))
               (\<lambda>s. Inr ((snd s)\<lparr>files := (files (snd s))(input_file \<mapsto> fst s)\<rparr>))))"

fun files_loop ::
  "env \<Rightarrow> tokenizer \<Rightarrow> model \<Rightarrow> string \<Rightarrow> string \<Rightarrow> nat \<Rightarrow> string list \<Rightarrow> locals \<Rightarrow> error + locals" where
  "files_loop e tok m model_type metadata max_seq_length [] st = Inr st"
| "files_loop e tok m model_type metadata max_seq_length (input_file # rest) st =
     ebind (file_step e tok m model_type metadata max_seq_length input_file st)
       (files_loop e tok m model_type metadata max_seq_length rest)"

text \<open>
  \<^verbatim>\<open>int(re.search(r"(ML)([0-9]*)", metadata).groups()[1])\<close>: without a match,
  \<^verbatim>\<open>groups\<close> is asked of \<^verbatim>\<open>None\<close>.
\<close>

definition parse_max_seq_length :: "string \<Rightarrow> error + nat" where
  "parse_max_seq_length metadata =
     (case re_search_ML metadata of None \<Rightarrow> Inl AttributeError | Some digits \<Rightarrow> py_int digits)"

text \<open>One pass of \<^verbatim>\<open>for model_path in model_paths\<close>.\<close>

definition checkpoint_step :: "env \<Rightarrow> string list \<Rightarrow> string \<Rightarrow> locals \<Rightarrow> error + locals" where
  "checkpoint_step e input_files model_path st =
     (let metadata = basename (dirname model_path);
          st1 = info (''Loading model: '' @ metadata) st;
          model_type = (if contains metadata ''xlm-roberta'' then ''xlmr'' else ''bert'')
      in ebind (parse_max_seq_length metadata) (\<lambda>max_seq_length.
         ebind (tokenizer_from_pretrained e model_type model_path) (\<lambda>tok.
         ebind (model_from_pretrained e model_type model_path) (\<lambda>m.
           files_loop e tok m model_type metadata max_seq_length input_files
             (st1\<lparr>wmt_source_cache := None, ar_source_cache := None\<rparr>)))))"

fun checkpoints_loop :: "env \<Rightarrow> string list \<Rightarrow> string list \<Rightarrow> locals \<Rightarrow> error + locals" where
  "checkpoints_loop e input_files [] st = Inr st"
| "checkpoints_loop e input_files (model_path # rest) st =
     ebind (checkpoint_step e input_files model_path st) (checkpoints_loop e input_files rest)"

text \<open>
  \<^verbatim>\<open>main\<close> on the files and checkpoint paths the two globs found, from the disk
  \<open>disk\<close>: before the first checkpoint no variable of the loops is bound.
\<close>

definition initial :: "(string \<rightharpoonup> json) \<Rightarrow> locals" where
  "initial disk =
     \<lparr>wmt_source_cache = None, ar_source_cache = None, preds = None, files = disk, logged = []\<rparr>"

definition main :: "env \<Rightarrow> string list \<Rightarrow> string list \<Rightarrow> (string \<rightharpoonup> json) \<Rightarrow> error + locals" where
  "main e input_files model_paths disk = checkpoints_loop e input_files model_paths (initial disk)"

section \<open>Notions used in the statements\<close>

text \<open>
  The specification speaks of a directory name holding the pattern \<^verbatim>\<open>ML<digits>\<close>:
  the letters \<^verbatim>\<open>ML\<close> followed by at least one digit, somewhere in the name.
\<close>

fun has_ML_digits :: "string \<Rightarrow> bool" where
  "has_ML_digits [] = False"
| "has_ML_digits (c # cs) =
     ((startswith (c # cs) ''ML'' \<and> (case drop 1 cs of [] \<Rightarrow> False | d # _ \<Rightarrow> is_digit d))
      \<or> has_ML_digits cs)"

text \<open>
  The two classes of file names the caching step tells apart: its \<^verbatim>\<open>if\<close>/\<^verbatim>\<open>elif\<close> asks
  for \<^verbatim>\<open>arp\<close> first, so a name counts for the \<^verbatim>\<open>wmtp\<close> cache when it holds
  \<^verbatim>\<open>wmtp\<close> and not \<^verbatim>\<open>arp\<close>; a name is tagged when it holds either.
\<close>

definition wmtp_only :: "string \<Rightarrow> bool" where
  "wmtp_only filename = (contains filename ''wmtp'' \<and> \<not> contains filename ''arp'')"

definition tagged :: "string \<Rightarrow> bool" where
  "tagged filename = (contains filename ''arp'' \<or> contains filename ''wmtp'')"

text \<open>
  The dataset with no rows, and the dataset that holds row by row the features of a list of
  examples.
\<close>

definition empty_dataset :: TensorDataset where
  "empty_dataset = \<lparr>all_input_ids = [], all_attention_mask = [], all_token_type_ids = [], all_labels = []\<rparr>"

definition dataset_of :: "tokenizer \<Rightarrow> nat \<Rightarrow> InputExample list \<Rightarrow> TensorDataset" where
  "dataset_of tok n examples =
     \<lparr>all_input_ids = map (\<lambda>ex. input_ids (tok n ex)) examples,
      all_attention_mask = map (\<lambda>ex. attention_mask (tok n ex)) examples,
      all_token_type_ids = map (\<lambda>ex. token_type_ids (tok n ex)) examples,
      all_labels = map (\<lambda>ex. label_id (tok n ex)) examples\<rparr>"

text \<open>
  \<open>corpus_ok\<close> is the input format of the specification: a mapping from keys to records,
  each with \<^verbatim>\<open>sentence_original\<close> and \<^verbatim>\<open>sentence_paraphrase\<close> (both with a
  \<^verbatim>\<open>source\<close> and a \<^verbatim>\<open>target\<close>) and a \<^verbatim>\<open>gold_label\<close>.
\<close>

definition has_item :: "json \<Rightarrow> string \<Rightarrow> bool" where
  "has_item d k = (\<not> isl (getitem d k))"

definition has_pair :: "json \<Rightarrow> string \<Rightarrow> bool" where
  "has_pair r f = (case getitem r f of Inl _ \<Rightarrow> False
                   | Inr p \<Rightarrow> has_item p ''source'' \<and> has_item p ''target'')"

definition record_complete :: "json \<Rightarrow> bool" where
  "record_complete r =
     (has_pair r ''sentence_original'' \<and> has_pair r ''sentence_paraphrase'' \<and> has_item r ''gold_label'')"

definition corpus_ok :: "json \<Rightarrow> bool" where
  "corpus_ok store =
     (case store of JObject kvs \<Rightarrow> list_all (\<lambda>kv. record_complete (snd kv)) kvs | _ \<Rightarrow> False)"

text \<open>
  A record after the two result fields of a checkpoint have been written into it.
\<close>

definition with_results :: "string \<Rightarrow> real \<Rightarrow> real \<Rightarrow> (string \<times> json) list \<Rightarrow> (string \<times> json) list" where
  "with_results metadata x y rec =
     AList.update (metadata @ ''_target'') (JFloat y)
       (AList.update (metadata @ ''_source'') (JFloat x) rec)"

section \<open>Sample data\<close>

text \<open>
  A corpus record with a source and a target sentence, and stand-ins for the tokenizer and
  the classifier: the tokenizer encodes a pair by the length of its first sentence, and the
  classifier scores a pair of length \<open>k\<close> with the logits \<open>[0, ln k]\<close>, hence with the
  probability \<open>k / (1 + k)\<close>. \<open>demo_result\<close> is a record with result fields added.
\<close>

definition demo_record :: "string \<Rightarrow> string \<Rightarrow> json" where
  "demo_record s t =
     JObject [(''sentence_original'', JObject [(''source'', JString s), (''target'', JString t)]),
              (''sentence_paraphrase'', JObject [(''source'', JString s), (''target'', JString t)]),
              (''gold_label'', JInt 1)]"

definition demo_result :: "string \<Rightarrow> string \<Rightarrow> (string \<times> json) list \<Rightarrow> json" where
  "demo_result s t res =
     JObject ([(''sentence_original'', JObject [(''source'', JString s), (''target'', JString t)]),
              (''sentence_paraphrase'', JObject [(''source'', JString s), (''target'', JString t)]),
              (''gold_label'', JInt 1)] @ res)"

definition demo_tok :: tokenizer where
  "demo_tok n ex =
     \<lparr>input_ids = replicate n (case text_a ex of JString s \<Rightarrow> int (length s) | _ \<Rightarrow> 0),
      attention_mask = replicate n 1, token_type_ids = replicate n 0, label_id = 1\<rparr>"

definition demo_model :: model where
  "demo_model inputs =
     (case map_of inputs ''input_ids'' of
        Some (Some (Long2 rows)) \<Rightarrow> map (\<lambda>r. [0, ln (real_of_int (hd r))]) rows
      | _ \<Rightarrow> [])"

definition demo_env :: env where
  "demo_env = \<lparr>py_str = (\<lambda>_. ''1''), tokenizer_from_pretrained = (\<lambda>_ _. Inr demo_tok),
               model_from_pretrained = (\<lambda>_ _. Inr demo_model), batch_size = 2\<rparr>"

definition demo_batch :: TensorDataset where
  "demo_batch = \<lparr>all_input_ids = [[5]], all_attention_mask = [[1]], all_token_type_ids = [[0]], all_labels = [1]\<rparr>"

definition demo_target :: TensorDataset where
  "demo_target = \<lparr>all_input_ids = [[2]], all_attention_mask = [[1]], all_token_type_ids = [[0]], all_labels = [1]\<rparr>"

definition demo_corpus :: json where
  "demo_corpus = JObject [(''k1'', demo_record ''a'' ''bb''), (''k2'', demo_record ''ccc'' ''dddd'')]"

definition demo_state :: locals where
  "demo_state = \<lparr>wmt_source_cache = Some [9/10], ar_source_cache = Some [9/10], preds = Some [9/10],
                 files = Map.empty, logged = []\<rparr>"

definition demo_after :: locals where
  "demo_after =
     \<lparr>wmt_source_cache = Some [1/2, 3/4], ar_source_cache = None, preds = Some [2/3, 4/5],
      files = [''wmtp_a.json'' \<mapsto>
                 JObject [(''k1'', demo_result ''a'' ''bb''
                            [(''M_source'', JFloat (1/2)), (''M_target'', JFloat (2/3))]),
                          (''k2'', demo_result ''ccc'' ''dddd''
                            [(''M_source'', JFloat (3/4)), (''M_target'', JFloat (4/5))])]],
      logged = [''Processing file: wmtp_a.json'', ''Initializing prediction'',
                ''Initializing prediction'']\<rparr>"

text \<open>
  A disk with three files, and the states after some of them have been processed: the first
  file alone, then the second or the third, and the first file under a whole checkpoint.
\<close>

definition demo_disk :: "string \<rightharpoonup> json" where
  "demo_disk = [''wmtp_a.json'' \<mapsto> JObject [(''k1'', demo_record ''a'' ''bb'')],
                ''wmtp_b.json'' \<mapsto> JObject [(''k2'', demo_record ''xyz'' ''dddd'')],
                ''wmtp_arp_c.json'' \<mapsto> JObject [(''k3'', demo_record ''xyz'' ''dddd'')]]"

definition demo_stA :: locals where
  "demo_stA = projr (file_step demo_env demo_tok demo_model ''bert'' ''M'' 1 ''wmtp_a.json''
                       (initial demo_disk))"

definition demo_stB :: locals where
  "demo_stB = projr (file_step demo_env demo_tok demo_model ''bert'' ''M'' 1 ''wmtp_b.json'' demo_stA)"

definition demo_stC :: locals where
  "demo_stC = projr (file_step demo_env demo_tok demo_model ''bert'' ''M'' 1 ''wmtp_arp_c.json'' demo_stA)"

definition demo_first :: locals where
  "demo_first = projr (checkpoints_loop demo_env [''wmtp_a.json''] [''m/bert.ML1/ckpt'']
                         (initial demo_disk))"

section \<open>Auxiliary facts\<close>

lemmas eval_defs = demo_record_def demo_tok_def demo_model_def demo_env_def
  main_def initial_def checkpoint_step_def parse_max_seq_length_def py_int_def digit_val_def is_digit_def
  basename_def dirname_def file_step_def direction_step_def cache_step_def merge_results_def
  info_def prepare_prediction_data_def make_example_def build_dataset_def convert_examples_to_features_def
  torch_tensor_def same_width_def DataLoader_def len_dataset_def dataset_getitem_def collate_def
  predict_def softmax_col1_def softmax_row_def model_inputs_def np_append_def Let_def chunks.simps

lemma ebind_Inl [simp]: "ebind (Inl e) f = Inl e"
  by (simp add: ebind_def)

lemma ebind_Inr [simp]: "ebind (Inr x) f = f x"
  by (simp add: ebind_def)

lemma ebind_eq_Inr: "ebind m f = Inr y \<longleftrightarrow> (\<exists>x. m = Inr x \<and> f x = Inr y)"
  by (cases m) simp_all

lemma ebind_eq_Inl: "ebind m f = Inl e \<longleftrightarrow> (m = Inl e \<or> (\<exists>x. m = Inr x \<and> f x = Inl e))"
  by (cases m) simp_all

lemma same_width_Nil [simp]: "same_width []"
  by (simp add: same_width_def)

lemma build_dataset_Nil [simp]: "build_dataset tok n [] = Inr empty_dataset"
  by (simp add: build_dataset_def convert_examples_to_features_def torch_tensor_def empty_dataset_def)

lemma prepare_empty: "prepare_prediction_data str (JObject []) tok n = Inr [empty_dataset, empty_dataset]"
  by (simp add: prepare_prediction_data_def)

lemma chunks_Nil [simp]: "chunks n [] = []"
  by (subst chunks.simps) simp

lemma DataLoader_empty: "DataLoader empty_dataset bs = (if bs \<le> 0 then Inl ValueError else Inr [])"
  by (simp add: DataLoader_def len_dataset_def empty_dataset_def)

lemma predict_Nil: "predict m mt [] = Inl ValueError"
  by (simp add: predict_def softmax_col1_def)

lemma re_search_ML_None: "re_search_ML s = None \<Longrightarrow> \<not> has_ML_digits s"
  by (induction s) (auto split: if_splits)

lemma re_search_ML_Some: "re_search_ML s = Some d \<Longrightarrow> \<not> has_ML_digits s \<Longrightarrow> d = []"
proof (induction s)
  case Nil then show ?case by simp
next
  case (Cons c cs)
  show ?case
  proof (cases "startswith (c # cs) ''ML''")
    case True
    with Cons.prems(1) have d: "d = takeWhile is_digit (drop 1 cs)"
      by (simp del: startswith.simps)
    from True Cons.prems(2) have "case drop 1 cs of [] \<Rightarrow> True | x # _ \<Rightarrow> \<not> is_digit x"
      by (simp del: startswith.simps split: list.splits)
    then show ?thesis unfolding d by (cases "drop 1 cs") auto
  next
    case False
    with Cons.prems(1) have 1: "re_search_ML cs = Some d"
      by (simp del: startswith.simps)
    from Cons.prems(2) have 2: "\<not> has_ML_digits cs"
      by (simp del: startswith.simps)
    from Cons.IH[OF 1 2] show ?thesis .
  qed
qed

lemma parse_no_pattern:
  assumes "\<not> has_ML_digits s"
  shows "parse_max_seq_length s = Inl AttributeError \<or> parse_max_seq_length s = Inl ValueError"
proof (cases "re_search_ML s")
  case None then show ?thesis by (simp add: parse_max_seq_length_def)
next
  case (Some d)
  have "d = []" by (rule re_search_ML_Some[OF Some assms])
  with Some show ?thesis by (simp add: parse_max_seq_length_def py_int_def)
qed

lemma checkpoint_step_no_pattern:
  assumes "\<not> has_ML_digits (basename (dirname model_path))"
  shows "checkpoint_step e input_files model_path st = Inl AttributeError
       \<or> checkpoint_step e input_files model_path st = Inl ValueError"
  using parse_no_pattern[OF assms] by (auto simp: checkpoint_step_def Let_def)

lemma checkpoints_loop_append:
  "checkpoints_loop e fs (xs @ ys) st = ebind (checkpoints_loop e fs xs st) (checkpoints_loop e fs ys)"
  by (induction xs arbitrary: st) (auto simp: ebind_def split: sum.splits)

lemma predict_loop_cong:
  "(\<And>b. b \<in> set dl \<Longrightarrow> m (model_inputs mt b) = m' (model_inputs mt b))
   \<Longrightarrow> predict_loop m mt dl acc = predict_loop m' mt dl acc"
proof (induction dl arbitrary: acc)
  case Nil then show ?case by simp
next
  case (Cons b dl)
  have b: "m (model_inputs mt b) = m' (model_inputs mt b)" using Cons.prems by simp
  have r: "\<And>acc. predict_loop m mt dl acc = predict_loop m' mt dl acc"
    using Cons.IH Cons.prems by simp
  show ?case by (simp add: b r Let_def cong: option.case_cong)
qed

lemma model_inputs_non_bert:
  assumes "model_type \<noteq> ''bert''"
  shows "model_inputs model_type batch =
       [(''input_ids'', Some (Long2 (all_input_ids batch))),
        (''attention_mask'', Some (Long2 (all_attention_mask batch))),
        (''labels'', Some (Long1 (all_labels batch)))]
       @ (if model_type = ''distilbert'' then [] else [(''token_type_ids'', None)])"
  using assms by (simp add: model_inputs_def)

lemma engine_fails_on_empty: "ebind (DataLoader empty_dataset bs) (predict m mt) = Inl ValueError"
  by (cases "bs \<le> 0") (simp_all add: DataLoader_empty predict_Nil)

section \<open>The empty corpus\<close>

text \<open>
  Claim C10. For a corpus with no keys both datasets are empty, the loader yields no batch,
  the accumulated logits are still \<^verbatim>\<open>None\<close> after the batch loop, and the softmax of
  \<^verbatim>\<open>None\<close> raises: the engine returns no vector, whatever the batch size and the model.
\<close>

theorem empty_record_engine_fails:
  "prepare_prediction_data str (JObject []) tok n = Inr [empty_dataset, empty_dataset]
   \<and> len_dataset empty_dataset = 0
   \<and> DataLoader empty_dataset bs = (if bs \<le> 0 then Inl ValueError else Inr [])
   \<and> predict_loop m mt [] None = Inr None
   \<and> softmax_col1 None = Inl ValueError
   \<and> predict m mt [] = Inl ValueError
   \<and> ebind (DataLoader empty_dataset bs) (predict m mt) = Inl ValueError"
proof -
  have "len_dataset empty_dataset = 0"
    by (simp add: len_dataset_def empty_dataset_def)
  moreover have "softmax_col1 None = Inl ValueError"
    by (simp add: softmax_col1_def)
  moreover have "predict_loop m mt [] None = Inr None"
    by simp
  ultimately show ?thesis
    using prepare_empty DataLoader_empty predict_Nil engine_fails_on_empty by blast
qed

theorem empty_record_engine_fails_witness:
  "prepare_prediction_data (py_str demo_env) (JObject []) demo_tok 1 = Inr [empty_dataset, empty_dataset]
   \<and> DataLoader empty_dataset 2 = Inr []
   \<and> predict demo_model ''bert'' [] = Inl ValueError
   \<and> main demo_env [''wmtp_a.json''] [''m/bert.ML1/ckpt''] [''wmtp_a.json'' \<mapsto> JObject []] = Inl ValueError"
proof -
  have "main demo_env [''wmtp_a.json''] [''m/bert.ML1/ckpt''] [''wmtp_a.json'' \<mapsto> JObject []] = Inl ValueError"
    by (simp add: eval_defs)
  then show ?thesis
    using empty_record_engine_fails [of "py_str demo_env" demo_tok 1 2 demo_model "''bert''"] by simp
qed

section \<open>The arguments of the model call\<close>

text \<open>
  Claim C5, as amended. For a model type other than \<^verbatim>\<open>bert\<close> no segment-id tensor
  reaches the model in any batch: the argument \<^verbatim>\<open>token_type_ids\<close> is passed with the value
  \<^verbatim>\<open>None\<close>, and it is left out of the call only for the model type \<^verbatim>\<open>distilbert\<close>.
  The model is called on these arguments and on nothing else: two models that agree on them
  give the same predictions.
\<close>

theorem non_bert_gets_no_segment_ids:
  assumes "model_type \<noteq> ''bert''"
  shows "model_inputs model_type batch =
       [(''input_ids'', Some (Long2 (all_input_ids batch))),
        (''attention_mask'', Some (Long2 (all_attention_mask batch))),
        (''labels'', Some (Long1 (all_labels batch)))]
       @ (if model_type = ''distilbert'' then [] else [(''token_type_ids'', None)])
     \<and> (\<forall>t. (''token_type_ids'', Some t) \<notin> set (model_inputs model_type batch))
     \<and> ((\<forall>b \<in> set dl. m (model_inputs model_type b) = m' (model_inputs model_type b))
          \<longrightarrow> predict m model_type dl = predict m' model_type dl)"
proof -
  have 1: "model_inputs model_type batch =
       [(''input_ids'', Some (Long2 (all_input_ids batch))),
        (''attention_mask'', Some (Long2 (all_attention_mask batch))),
        (''labels'', Some (Long1 (all_labels batch)))]
       @ (if model_type = ''distilbert'' then [] else [(''token_type_ids'', None)])"
    by (rule model_inputs_non_bert[OF assms])
  have 2: "\<forall>t. (''token_type_ids'', Some t) \<notin> set (model_inputs model_type batch)"
    by (simp add: 1)
  have 3: "(\<forall>b \<in> set dl. m (model_inputs model_type b) = m' (model_inputs model_type b))
          \<longrightarrow> predict m model_type dl = predict m' model_type dl"
  proof
    assume h: "\<forall>b \<in> set dl. m (model_inputs model_type b) = m' (model_inputs model_type b)"
    have "predict_loop m model_type dl None = predict_loop m' model_type dl None"
      by (rule predict_loop_cong) (use h in blast)
    then show "predict m model_type dl = predict m' model_type dl"
      by (simp add: predict_def)
  qed
  show ?thesis
    by (intro conjI) (rule 1, rule 2, rule 3)
qed

theorem non_bert_gets_no_segment_ids_witness:
  "model_inputs ''xlmr'' demo_batch =
       [(''input_ids'', Some (Long2 [[5]])), (''attention_mask'', Some (Long2 [[1]])),
        (''labels'', Some (Long1 [1])), (''token_type_ids'', None)]
   \<and> model_inputs ''distilbert'' demo_batch =
       [(''input_ids'', Some (Long2 [[5]])), (''attention_mask'', Some (Long2 [[1]])),
        (''labels'', Some (Long1 [1]))]"
  using non_bert_gets_no_segment_ids [of "''xlmr''" demo_batch "[]" demo_model demo_model]
        non_bert_gets_no_segment_ids [of "''distilbert''" demo_batch "[]" demo_model demo_model]
  by (simp add: demo_batch_def)

text \<open>
  Claim C5 as stated fails for \<^verbatim>\<open>xlmr\<close>, the one model type other than \<^verbatim>\<open>bert\<close>
  that \<open>checkpoint_step\<close> sets: the call has the argument \<^verbatim>\<open>token_type_ids\<close>.
\<close>

theorem xlmr_call_has_token_type_ids_argument:
  "map fst (model_inputs ''xlmr'' demo_batch) = [''input_ids'', ''attention_mask'', ''labels'', ''token_type_ids'']"
  by (simp add: model_inputs_def demo_batch_def)

section \<open>Checkpoint names\<close>

text \<open>
  Claim C9. When the directory name of a checkpoint does not hold \<^verbatim>\<open>ML\<close> followed by
  a digit, its pass raises \<^verbatim>\<open>AttributeError\<close> or \<^verbatim>\<open>ValueError\<close> whatever the files
  and the state; when the checkpoints before it have been processed, that error is the result of
  \<open>main\<close>, whatever checkpoints come after it; and \<open>main\<close> ends in an error in any case.
\<close>

theorem missing_length_pattern_aborts:
  assumes "\<not> has_ML_digits (basename (dirname model_path))"
  shows "(checkpoint_step e input_files model_path st = Inl AttributeError
          \<or> checkpoint_step e input_files model_path st = Inl ValueError)
       \<and> (\<forall>s. checkpoints_loop e input_files pre (initial disk) = Inr s \<longrightarrow>
             main e input_files (pre @ model_path # post) disk
               = checkpoint_step e input_files model_path s)
       \<and> (\<exists>err. main e input_files (pre @ model_path # post) disk = Inl err)"
proof -
  have step: "\<And>s. checkpoint_step e input_files model_path s = Inl AttributeError
          \<or> checkpoint_step e input_files model_path s = Inl ValueError"
    by (rule checkpoint_step_no_pattern[OF assms])
  have same: "\<forall>s. checkpoints_loop e input_files pre (initial disk) = Inr s \<longrightarrow>
             main e input_files (pre @ model_path # post) disk
               = checkpoint_step e input_files model_path s"
  proof (intro allI impI)
    fix s assume s: "checkpoints_loop e input_files pre (initial disk) = Inr s"
    from step[of s] show "main e input_files (pre @ model_path # post) disk
               = checkpoint_step e input_files model_path s"
      by (auto simp: main_def checkpoints_loop_append s)
  qed
  have "\<exists>err. checkpoints_loop e input_files (pre @ model_path # post) (initial disk) = Inl err"
  proof (cases "checkpoints_loop e input_files pre (initial disk)")
    case (Inl err)
    then show ?thesis by (simp add: checkpoints_loop_append)
  next
    case (Inr s)
    with step[of s] show ?thesis by (auto simp: checkpoints_loop_append)
  qed
  then have abort: "\<exists>err. main e input_files (pre @ model_path # post) disk = Inl err"
    by (simp add: main_def)
  show ?thesis
    by (intro conjI) (rule step, rule same, rule abort)
qed

theorem missing_length_pattern_aborts_witness:
  "\<not> has_ML_digits (basename (dirname ''m/bert-base/ckpt''))
   \<and> (\<exists>err. main demo_env [] [''m/bert.ML1/ckpt'', ''m/bert-base/ckpt'', ''m/bert.ML1/ckpt''] Map.empty = Inl err)
   \<and> main demo_env [] [''m/bert.ML1/ckpt'', ''m/bert-base/ckpt'', ''m/bert.ML1/ckpt''] Map.empty = Inl AttributeError
   \<and> main demo_env [] [''m/bert.ML1/ckpt'', ''m/bert.ML/ckpt'', ''m/bert.ML1/ckpt''] Map.empty = Inl ValueError"
proof -
  have h: "\<not> has_ML_digits (basename (dirname ''m/bert-base/ckpt''))"
    by (simp add: basename_def dirname_def is_digit_def)
  have a: "main demo_env [] [''m/bert.ML1/ckpt'', ''m/bert-base/ckpt'', ''m/bert.ML1/ckpt''] Map.empty = Inl AttributeError"
    by (simp add: eval_defs)
  have b: "main demo_env [] [''m/bert.ML1/ckpt'', ''m/bert.ML/ckpt'', ''m/bert.ML1/ckpt''] Map.empty = Inl ValueError"
    by (simp add: eval_defs)
  from missing_length_pattern_aborts [OF h, where e = demo_env and input_files = "[]"
      and st = "initial Map.empty" and pre = "[''m/bert.ML1/ckpt'']"
      and post = "[''m/bert.ML1/ckpt'']" and disk = Map.empty]
  have "\<exists>err. main demo_env [] [''m/bert.ML1/ckpt'', ''m/bert-base/ckpt'', ''m/bert.ML1/ckpt''] Map.empty = Inl err"
    by simp
  with h a b show ?thesis by blast
qed

section \<open>The direction loop\<close>

lemma ebind_assoc: "ebind (ebind m f) g = ebind m (\<lambda>x. ebind (f x) g)"
  by (cases m) simp_all

lemma cache_step_target:
  "cache_step e m mt fn (Suc 0) ds st =
     ebind (DataLoader ds (batch_size e)) (\<lambda>dl. ebind (predict m mt dl) (\<lambda>ps.
       Inr ((info ''Initializing prediction'' st)\<lparr>preds := Some ps\<rparr>)))"
  by (simp add: cache_step_def Let_def)

lemma direction_step_target:
  "direction_step e m mt metadata fn (Suc 0) ds (store, st) =
     ebind (DataLoader ds (batch_size e)) (\<lambda>dl. ebind (predict m mt dl) (\<lambda>ps.
       ebind (merge_results (metadata @ ''_target'') (Some ps) store) (\<lambda>store'.
         Inr (store', (info ''Initializing prediction'' st)\<lparr>preds := Some ps\<rparr>))))"
  by (simp add: direction_step_def cache_step_target Let_def ebind_assoc)

text \<open>
  Claim C6. For every file name, every state of the caches and every checkpoint, the pass
  for the target direction (\<open>i = 1\<close>) runs the engine on its own dataset and writes that result;
  when it succeeds both caches are what they were, and the variable \<^verbatim>\<open>preds\<close> holds the
  fresh vector. In the loop over the two datasets of a file the target dataset is the one at
  index 1.
\<close>

theorem target_direction_always_computed:
  "direction_step e m mt metadata fn 1 ds (store, st) =
     ebind (DataLoader ds (batch_size e)) (\<lambda>dl. ebind (predict m mt dl) (\<lambda>ps.
       ebind (merge_results (metadata @ ''_target'') (Some ps) store) (\<lambda>store'.
         Inr (store', (info ''Initializing prediction'' st)\<lparr>preds := Some ps\<rparr>))))
   \<and> (\<forall>store' st'. direction_step e m mt metadata fn 1 ds (store, st) = Inr (store', st') \<longrightarrow>
         wmt_source_cache st' = wmt_source_cache st \<and> ar_source_cache st' = ar_source_cache st
         \<and> (\<exists>dl ps. DataLoader ds (batch_size e) = Inr dl \<and> predict m mt dl = Inr ps
               \<and> preds st' = Some ps
               \<and> merge_results (metadata @ ''_target'') (Some ps) store = Inr store'))
   \<and> directions_loop e m mt metadata fn 0 [d0, ds] s =
       ebind (direction_step e m mt metadata fn 0 d0 s) (direction_step e m mt metadata fn 1 ds)"
proof -
  have 2: "\<forall>store' st'. direction_step e m mt metadata fn 1 ds (store, st) = Inr (store', st') \<longrightarrow>
         wmt_source_cache st' = wmt_source_cache st \<and> ar_source_cache st' = ar_source_cache st
         \<and> (\<exists>dl ps. DataLoader ds (batch_size e) = Inr dl \<and> predict m mt dl = Inr ps
               \<and> preds st' = Some ps
               \<and> merge_results (metadata @ ''_target'') (Some ps) store = Inr store')"
    by (auto simp: direction_step_target ebind_eq_Inr info_def)
  have 3: "directions_loop e m mt metadata fn 0 [d0, ds] s =
       ebind (direction_step e m mt metadata fn 0 d0 s) (direction_step e m mt metadata fn 1 ds)"
    by (cases "direction_step e m mt metadata fn 0 d0 s") (simp_all add: ebind_def split: sum.splits)
  have 1: "direction_step e m mt metadata fn 1 ds (store, st) =
     ebind (DataLoader ds (batch_size e)) (\<lambda>dl. ebind (predict m mt dl) (\<lambda>ps.
       ebind (merge_results (metadata @ ''_target'') (Some ps) store) (\<lambda>store'.
         Inr (store', (info ''Initializing prediction'' st)\<lparr>preds := Some ps\<rparr>))))"
    by (simp add: direction_step_target)
  show ?thesis
    by (intro conjI) (rule 1, rule 2, rule 3)
qed

theorem target_direction_always_computed_witness:
  "direction_step demo_env demo_model ''bert'' ''M'' ''wmtp_a.json'' 1 demo_target
      (JObject [(''k1'', demo_record ''a'' ''bb'')], demo_state)
   = Inr (JObject [(''k1'', demo_result ''a'' ''bb'' [(''M_target'', JFloat (2/3))])],
          demo_state\<lparr>preds := Some [2/3], logged := [''Initializing prediction'']\<rparr>)"
proof -
  have "ebind (DataLoader demo_target (batch_size demo_env)) (\<lambda>dl. ebind (predict demo_model ''bert'' dl) (\<lambda>ps.
       ebind (merge_results (''M'' @ ''_target'') (Some ps) (JObject [(''k1'', demo_record ''a'' ''bb'')])) (\<lambda>store'.
         Inr (store', (info ''Initializing prediction'' demo_state)\<lparr>preds := Some ps\<rparr>))))
    = Inr (JObject [(''k1'', demo_result ''a'' ''bb'' [(''M_target'', JFloat (2/3))])],
          demo_state\<lparr>preds := Some [2/3], logged := [''Initializing prediction'']\<rparr>)"
    by (simp add: eval_defs demo_result_def demo_target_def demo_state_def upt_rec)
  then show ?thesis
    using target_direction_always_computed [of demo_env demo_model "''bert''" "''M''" "''wmtp_a.json''"
        demo_target "JObject [(''k1'', demo_record ''a'' ''bb'')]" demo_state]
    by simp
qed

text \<open>
  Claim C1 fails on the code. A file whose name has neither tag takes the \<^verbatim>\<open>else\<close>
  branch at \<open>i = 0\<close>, where no assignment to \<^verbatim>\<open>preds\<close> is made: the source field of
  \<^verbatim>\<open>plain.json\<close> below receives the target probability of the file processed before it
  (\<open>2/3\<close>, where its own source pair would give \<open>3/4\<close>), and when such a file comes first
  the run stops with \<^verbatim>\<open>UnboundLocalError\<close>.
\<close>

theorem untagged_file_gets_stale_source:
  "map_sum id (\<lambda>st. (files st ''wmtp_a.json'', files st ''plain.json'', logged st))
     (main demo_env [''wmtp_a.json'', ''plain.json''] [''m/bert.ML1/ckpt'']
        [''wmtp_a.json'' \<mapsto> JObject [(''k1'', demo_record ''a'' ''bb'')],
         ''plain.json'' \<mapsto> JObject [(''k2'', demo_record ''ccc'' ''dddd'')]]) =
    Inr (Some (JObject [(''k1'', demo_result ''a'' ''bb''
                 [(''bert.ML1_source'', JFloat (1/2)), (''bert.ML1_target'', JFloat (2/3))])]),
         Some (JObject [(''k2'', demo_result ''ccc'' ''dddd''
                 [(''bert.ML1_source'', JFloat (2/3)), (''bert.ML1_target'', JFloat (4/5))])]),
         [''Loading model: bert.ML1'', ''Processing file: wmtp_a.json'', ''Initializing prediction'',
          ''Initializing prediction'', ''Processing file: plain.json'',
          ''Using cached results instead of re-computing'', ''Initializing prediction''])
   \<and> main demo_env [''plain.json''] [''m/bert.ML1/ckpt'']
        [''plain.json'' \<mapsto> JObject [(''k2'', demo_record ''ccc'' ''dddd'')]] = Inl UnboundLocalError"
  by (simp add: eval_defs demo_result_def upt_rec)

section \<open>The feature builder\<close>

lemma make_example_InrD:
  assumes "make_example str store key side lang = Inr ex"
  shows "guid ex = key" and "language ex = lang"
    and "\<exists>r p. getitem store key = Inr r \<and> getitem r ''sentence_original'' = Inr p
               \<and> getitem p side = Inr (text_a ex)"
    and "\<exists>r p. getitem store key = Inr r \<and> getitem r ''sentence_paraphrase'' = Inr p
               \<and> getitem p side = Inr (text_b ex)"
    and "\<exists>r g. getitem store key = Inr r \<and> getitem r ''gold_label'' = Inr g \<and> label ex = str g"
  using assms by (auto simp: make_example_def ebind_eq_Inr)

lemma examples_loop_InrD:
  "examples_loop str store ks acc = Inr r \<Longrightarrow>
     \<exists>src tgt. r = (fst acc @ src, snd acc @ tgt)
        \<and> list_all2 (\<lambda>k ex. make_example str store k ''source'' ''de'' = Inr ex) ks src
        \<and> list_all2 (\<lambda>k ex. make_example str store k ''target'' ''en'' = Inr ex) ks tgt"
proof (induction ks arbitrary: acc)
  case Nil
  then show ?case by auto
next
  case (Cons k ks)
  from Cons.prems obtain es et where
    es: "make_example str store k ''source'' ''de'' = Inr es" and
    et: "make_example str store k ''target'' ''en'' = Inr et" and
    rest: "examples_loop str store ks (fst acc @ [es], snd acc @ [et]) = Inr r"
    by (auto simp: ebind_eq_Inr)
  from Cons.IH[OF rest] obtain src tgt where
    r: "r = ((fst acc @ [es]) @ src, (snd acc @ [et]) @ tgt)" and
    s: "list_all2 (\<lambda>k ex. make_example str store k ''source'' ''de'' = Inr ex) ks src" and
    t: "list_all2 (\<lambda>k ex. make_example str store k ''target'' ''en'' = Inr ex) ks tgt"
    by auto
  show ?case
    by (rule exI[of _ "es # src"], rule exI[of _ "et # tgt"]) (simp add: r s t es et)
qed

lemma build_dataset_InrD: "build_dataset tok n exs = Inr d \<Longrightarrow> d = dataset_of tok n exs"
  by (auto simp: build_dataset_def convert_examples_to_features_def torch_tensor_def
      dataset_of_def ebind_eq_Inr Let_def comp_def split: if_splits)

lemma datasets_loop_two:
  "datasets_loop tok n [a, b] [] = Inr out \<Longrightarrow> out = [dataset_of tok n a, dataset_of tok n b]"
  by (auto simp: ebind_eq_Inr dest!: build_dataset_InrD)

lemma same_width_const: "\<forall>r \<in> set rows. length r = n \<Longrightarrow> same_width rows"
  by (cases rows) (auto simp: same_width_def list_all_iff)

lemma build_dataset_fixed_width:
  assumes "\<forall>ex. length (input_ids (tok n ex)) = n \<and> length (attention_mask (tok n ex)) = n
               \<and> length (token_type_ids (tok n ex)) = n"
  shows "build_dataset tok n exs = Inr (dataset_of tok n exs)"
proof -
  have "same_width (map (\<lambda>ex. input_ids (tok n ex)) exs)"
       "same_width (map (\<lambda>ex. attention_mask (tok n ex)) exs)"
       "same_width (map (\<lambda>ex. token_type_ids (tok n ex)) exs)"
    using assms by (auto intro!: same_width_const[of _ n])
  then show ?thesis
    by (simp add: build_dataset_def convert_examples_to_features_def torch_tensor_def
        dataset_of_def Let_def comp_def)
qed

lemma has_item_iff: "has_item d k \<longleftrightarrow> (\<exists>v. getitem d k = Inr v)"
  by (cases "getitem d k") (simp_all add: has_item_def)

lemma make_example_complete:
  assumes "getitem store key = Inr r" and "record_complete r"
      and "side = ''source'' \<or> side = ''target''"
  shows "\<exists>ex. make_example str store key side lang = Inr ex"
proof -
  from assms(2) obtain p q g where
    p: "getitem r ''sentence_original'' = Inr p" "has_item p ''source''" "has_item p ''target''" and
    q: "getitem r ''sentence_paraphrase'' = Inr q" "has_item q ''source''" "has_item q ''target''" and
    g: "getitem r ''gold_label'' = Inr g"
    by (auto simp: record_complete_def has_pair_def has_item_iff[of r] split: sum.splits)
  from p(2,3) q(2,3) assms(3) obtain a b where "getitem p side = Inr a" "getitem q side = Inr b"
    by (auto simp: has_item_iff)
  with assms(1) p(1) q(1) g show ?thesis
    by (simp add: make_example_def)
qed

lemma examples_loop_complete:
  assumes "\<forall>k \<in> set ks. \<exists>r. getitem store k = Inr r \<and> record_complete r"
  shows "\<exists>r. examples_loop str store ks acc = Inr r"
  using assms
proof (induction ks arbitrary: acc)
  case Nil
  then show ?case by simp
next
  case (Cons k ks)
  from Cons.prems obtain r where r: "getitem store k = Inr r" "record_complete r" by auto
  from make_example_complete[OF r, of "''source''" str "''de''"]
  obtain es where es: "make_example str store k ''source'' ''de'' = Inr es" by auto
  from make_example_complete[OF r, of "''target''" str "''en''"]
  obtain et where et: "make_example str store k ''target'' ''en'' = Inr et" by auto
  from Cons.IH[of "(fst acc @ [es], snd acc @ [et])"] Cons.prems
  show ?case by (simp add: es et)
qed

lemma corpus_ok_lookup:
  assumes "corpus_ok (JObject kvs)" and "k \<in> set (map fst kvs)"
  shows "\<exists>r. getitem (JObject kvs) k = Inr r \<and> record_complete r"
proof -
  from assms(2) obtain r where r: "map_of kvs k = Some r"
    by (cases "map_of kvs k") (auto simp: map_of_eq_None_iff)
  then have "(k, r) \<in> set kvs" by (rule map_of_SomeD)
  with assms(1) have "record_complete r"
    by (auto simp: corpus_ok_def list_all_iff)
  with r show ?thesis by simp
qed

lemma prepare_complete:
  assumes "corpus_ok store"
      and "\<forall>ex. length (input_ids (tok n ex)) = n \<and> length (attention_mask (tok n ex)) = n
               \<and> length (token_type_ids (tok n ex)) = n"
  shows "\<exists>data_out. prepare_prediction_data str store tok n = Inr data_out"
proof -
  from assms(1) obtain kvs where store: "store = JObject kvs"
    by (cases store) (auto simp: corpus_ok_def)
  have "\<forall>k \<in> set (map fst kvs). \<exists>r. getitem store k = Inr r \<and> record_complete r"
    using corpus_ok_lookup assms(1) unfolding store by blast
  from examples_loop_complete[OF this, of str "([], [])"]
  obtain r where r: "examples_loop str store (map fst kvs) ([], []) = Inr r" by auto
  show ?thesis
    by (simp add: prepare_prediction_data_def store r[unfolded store]
        build_dataset_fixed_width[of tok n, OF assms(2)])
qed

text \<open>
  Claim C7. Whenever \<open>prepare_prediction_data\<close> returns, it returns exactly two datasets:
  the first holds the features of the source examples, the second those of the target examples,
  and in both the row at position \<open>j\<close> is the feature of the example built from the
  \<open>j\<close>-th key of the corpus (German for the source, English for the target). It does return
  for a corpus in the input format of the specification and a tokenizer whose features all have
  the maximum sequence length.
\<close>

theorem two_groups_in_key_order:
  "(corpus_ok store
      \<and> (\<forall>ex. length (input_ids (tok n ex)) = n \<and> length (attention_mask (tok n ex)) = n
               \<and> length (token_type_ids (tok n ex)) = n)
      \<longrightarrow> (\<exists>data_out. prepare_prediction_data str store tok n = Inr data_out))
   \<and> (\<forall>data_out. prepare_prediction_data str store tok n = Inr data_out \<longrightarrow>
         (\<exists>ks src tgt. keys store = Inr ks
            \<and> data_out = [dataset_of tok n src, dataset_of tok n tgt]
            \<and> length src = length ks \<and> length tgt = length ks
            \<and> (\<forall>j < length ks.
                  make_example str store (ks ! j) ''source'' ''de'' = Inr (src ! j)
                \<and> make_example str store (ks ! j) ''target'' ''en'' = Inr (tgt ! j)
                \<and> guid (src ! j) = ks ! j \<and> guid (tgt ! j) = ks ! j
                \<and> language (src ! j) = ''de'' \<and> language (tgt ! j) = ''en'')))"
proof (intro conjI allI impI)
  assume "corpus_ok store
      \<and> (\<forall>ex. length (input_ids (tok n ex)) = n \<and> length (attention_mask (tok n ex)) = n
               \<and> length (token_type_ids (tok n ex)) = n)"
  then show "\<exists>data_out. prepare_prediction_data str store tok n = Inr data_out"
    using prepare_complete[of store tok n str] by blast
next
  fix data_out
  assume ok: "prepare_prediction_data str store tok n = Inr data_out"
  then obtain ks ex where ks: "keys store = Inr ks"
    and ex: "examples_loop str store ks ([], []) = Inr ex"
    and out: "datasets_loop tok n [fst ex, snd ex] [] = Inr data_out"
    by (auto simp: prepare_prediction_data_def ebind_eq_Inr)
  from examples_loop_InrD[OF ex] obtain src tgt where
    e: "ex = (src, tgt)" and
    s: "list_all2 (\<lambda>k ex. make_example str store k ''source'' ''de'' = Inr ex) ks src" and
    t: "list_all2 (\<lambda>k ex. make_example str store k ''target'' ''en'' = Inr ex) ks tgt"
    by auto
  have d: "data_out = [dataset_of tok n src, dataset_of tok n tgt]"
    using datasets_loop_two[OF out] by (simp add: e)
  have ls: "length src = length ks" and lt: "length tgt = length ks"
    using list_all2_lengthD[OF s] list_all2_lengthD[OF t] by simp_all
  have "\<forall>j < length ks.
                  make_example str store (ks ! j) ''source'' ''de'' = Inr (src ! j)
                \<and> make_example str store (ks ! j) ''target'' ''en'' = Inr (tgt ! j)
                \<and> guid (src ! j) = ks ! j \<and> guid (tgt ! j) = ks ! j
                \<and> language (src ! j) = ''de'' \<and> language (tgt ! j) = ''en''"
  proof (intro allI impI)
    fix j assume j: "j < length ks"
    have a: "make_example str store (ks ! j) ''source'' ''de'' = Inr (src ! j)"
      using list_all2_nthD[OF s j] .
    have b: "make_example str store (ks ! j) ''target'' ''en'' = Inr (tgt ! j)"
      using list_all2_nthD[OF t j] .
    show "make_example str store (ks ! j) ''source'' ''de'' = Inr (src ! j)
                \<and> make_example str store (ks ! j) ''target'' ''en'' = Inr (tgt ! j)
                \<and> guid (src ! j) = ks ! j \<and> guid (tgt ! j) = ks ! j
                \<and> language (src ! j) = ''de'' \<and> language (tgt ! j) = ''en''"
      using a b make_example_InrD(1,2)[OF a] make_example_InrD(1,2)[OF b] by simp
  qed
  with ks d ls lt show "\<exists>ks src tgt. keys store = Inr ks
            \<and> data_out = [dataset_of tok n src, dataset_of tok n tgt]
            \<and> length src = length ks \<and> length tgt = length ks
            \<and> (\<forall>j < length ks.
                  make_example str store (ks ! j) ''source'' ''de'' = Inr (src ! j)
                \<and> make_example str store (ks ! j) ''target'' ''en'' = Inr (tgt ! j)
                \<and> guid (src ! j) = ks ! j \<and> guid (tgt ! j) = ks ! j
                \<and> language (src ! j) = ''de'' \<and> language (tgt ! j) = ''en'')"
    by blast
qed

theorem two_groups_in_key_order_witness:
  "corpus_ok demo_corpus
   \<and> (\<exists>data_out. prepare_prediction_data (py_str demo_env) demo_corpus demo_tok 1 = Inr data_out)
   \<and> prepare_prediction_data (py_str demo_env) demo_corpus demo_tok 1 =
       Inr [\<lparr>all_input_ids = [[1], [3]], all_attention_mask = [[1], [1]],
              all_token_type_ids = [[0], [0]], all_labels = [1, 1]\<rparr>,
            \<lparr>all_input_ids = [[2], [4]], all_attention_mask = [[1], [1]],
              all_token_type_ids = [[0], [0]], all_labels = [1, 1]\<rparr>]"
proof -
  have ok: "corpus_ok demo_corpus"
    by (simp add: corpus_ok_def record_complete_def has_pair_def has_item_def demo_corpus_def
        demo_record_def)
  have w: "\<forall>ex. length (input_ids (demo_tok 1 ex)) = 1 \<and> length (attention_mask (demo_tok 1 ex)) = 1
               \<and> length (token_type_ids (demo_tok 1 ex)) = 1"
    by (simp add: demo_tok_def)
  have v: "prepare_prediction_data (py_str demo_env) demo_corpus demo_tok 1 =
       Inr [\<lparr>all_input_ids = [[1], [3]], all_attention_mask = [[1], [1]],
              all_token_type_ids = [[0], [0]], all_labels = [1, 1]\<rparr>,
            \<lparr>all_input_ids = [[2], [4]], all_attention_mask = [[1], [1]],
              all_token_type_ids = [[0], [0]], all_labels = [1, 1]\<rparr>]"
    by (simp add: eval_defs demo_corpus_def)
  from two_groups_in_key_order[of demo_corpus demo_tok 1 "py_str demo_env"] ok w
  have "\<exists>data_out. prepare_prediction_data (py_str demo_env) demo_corpus demo_tok 1 = Inr data_out"
    by blast
  with ok v show ?thesis by simp
qed

section \<open>Merging the results\<close>

lemma merge_loop_ConsD:
  assumes "merge_loop entry ps j (key # ks) kvs = Inr kvs'"
  shows "\<exists>rec v. map_of kvs key = Some (JObject rec) \<and> ps = Some v \<and> j < length v
           \<and> merge_loop entry ps (Suc j) ks
                (AList.update key (JObject (AList.update entry (JFloat (v ! j)) rec)) kvs) = Inr kvs'"
  using assms by (auto split: option.splits json.splits if_splits)

lemma merge_loop_keys:
  "merge_loop entry ps j ks kvs = Inr kvs' \<Longrightarrow> map fst kvs' = map fst kvs"
proof (induction ks arbitrary: j kvs)
  case Nil
  then show ?case by simp
next
  case (Cons key ks)
  from merge_loop_ConsD[OF Cons.prems] obtain rec v where
    look: "map_of kvs key = Some (JObject rec)" and
    rest: "merge_loop entry ps (Suc j) ks
             (AList.update key (JObject (AList.update entry (JFloat (v ! j)) rec)) kvs) = Inr kvs'"
    by blast
  from look have "key \<in> set (map fst kvs)"
    by (metis map_of_eq_None_iff option.distinct(1) set_map)
  then have "map fst (AList.update key (JObject (AList.update entry (JFloat (v ! j)) rec)) kvs) = map fst kvs"
    by (simp add: AList.update_keys)
  with Cons.IH[OF rest] show ?case by simp
qed

lemma merge_loop_other:
  "merge_loop entry ps j ks kvs = Inr kvs' \<Longrightarrow> k \<notin> set ks \<Longrightarrow> map_of kvs' k = map_of kvs k"
proof (induction ks arbitrary: j kvs)
  case Nil
  then show ?case by simp
next
  case (Cons key ks)
  from merge_loop_ConsD[OF Cons.prems(1)] obtain rec v where
    rest: "merge_loop entry ps (Suc j) ks
             (AList.update key (JObject (AList.update entry (JFloat (v ! j)) rec)) kvs) = Inr kvs'"
    by blast
  from Cons.prems(2) have "k \<noteq> key" "k \<notin> set ks" by auto
  with Cons.IH[OF rest] show ?case by (simp add: AList.update_conv')
qed

lemma merge_loop_nth:
  "merge_loop entry ps j ks kvs = Inr kvs' \<Longrightarrow> distinct ks \<Longrightarrow> i < length ks \<Longrightarrow>
     \<exists>v rec. ps = Some v \<and> j + i < length v \<and> map_of kvs (ks ! i) = Some (JObject rec)
        \<and> map_of kvs' (ks ! i) = Some (JObject (AList.update entry (JFloat (v ! (j + i))) rec))"
proof (induction ks arbitrary: j kvs i)
  case Nil
  then show ?case by simp
next
  case (Cons key ks)
  from merge_loop_ConsD[OF Cons.prems(1)] obtain rec v where
    look: "map_of kvs key = Some (JObject rec)" and ps: "ps = Some v" and j: "j < length v" and
    rest: "merge_loop entry ps (Suc j) ks
             (AList.update key (JObject (AList.update entry (JFloat (v ! j)) rec)) kvs) = Inr kvs'"
    by blast
  let ?kvs1 = "AList.update key (JObject (AList.update entry (JFloat (v ! j)) rec)) kvs"
  from Cons.prems(2) have notin: "key \<notin> set ks" and dist: "distinct ks" by auto
  show ?case
  proof (cases i)
    case 0
    have "map_of kvs' key = map_of ?kvs1 key"
      by (rule merge_loop_other[OF rest notin])
    then have "map_of kvs' key = Some (JObject (AList.update entry (JFloat (v ! j)) rec))"
      by (simp add: AList.update_conv')
    with look ps j 0 show ?thesis by simp
  next
    case (Suc i')
    with Cons.prems(3) have i': "i' < length ks" by simp
    from Cons.IH[OF rest dist i'] obtain v' rec' where
      a: "ps = Some v'" "Suc j + i' < length v'" "map_of ?kvs1 (ks ! i') = Some (JObject rec')"
         "map_of kvs' (ks ! i') = Some (JObject (AList.update entry (JFloat (v' ! (Suc j + i'))) rec'))"
      by blast
    from i' notin have "ks ! i' \<noteq> key" by (metis nth_mem)
    with a(3) have "map_of kvs (ks ! i') = Some (JObject rec')"
      by (simp add: AList.update_conv')
    with a Suc show ?thesis by simp
  qed
qed

lemma merge_results_InrD:
  assumes "merge_results entry ps store = Inr store'"
  shows "\<exists>kvs kvs'. store = JObject kvs \<and> store' = JObject kvs'
           \<and> merge_loop entry ps 0 (map fst kvs) kvs = Inr kvs'"
  using assms by (cases store) (auto simp: merge_results_def ebind_eq_Inr)

lemma merge_results_record:
  assumes "merge_results entry ps (JObject kvs) = Inr store'" and "distinct (map fst kvs)"
  shows "\<exists>kvs'. store' = JObject kvs' \<and> map fst kvs' = map fst kvs
          \<and> (\<forall>i < length kvs. \<exists>v rec. ps = Some v \<and> i < length v
                 \<and> map_of kvs (fst (kvs ! i)) = Some (JObject rec)
                 \<and> map_of kvs' (fst (kvs ! i)) = Some (JObject (AList.update entry (JFloat (v ! i)) rec)))"
proof -
  from merge_results_InrD[OF assms(1)] obtain kvs' where
    s: "store' = JObject kvs'" and l: "merge_loop entry ps 0 (map fst kvs) kvs = Inr kvs'"
    by auto
  have "\<forall>i < length kvs. \<exists>v rec. ps = Some v \<and> i < length v
                 \<and> map_of kvs (fst (kvs ! i)) = Some (JObject rec)
                 \<and> map_of kvs' (fst (kvs ! i)) = Some (JObject (AList.update entry (JFloat (v ! i)) rec))"
  proof (intro allI impI)
    fix i assume i: "i < length kvs"
    then have "i < length (map fst kvs)" by simp
    from merge_loop_nth[OF l assms(2) this] i
    show "\<exists>v rec. ps = Some v \<and> i < length v
                 \<and> map_of kvs (fst (kvs ! i)) = Some (JObject rec)
                 \<and> map_of kvs' (fst (kvs ! i)) = Some (JObject (AList.update entry (JFloat (v ! i)) rec))"
      by simp
  qed
  with s merge_loop_keys[OF l] show ?thesis by blast
qed

lemma nth_distinct_lookup:
  assumes "distinct (map fst al)" and "i < length al"
  shows "map_of al (fst (al ! i)) = Some (snd (al ! i))"
  using assms by (simp add: map_of_eq_Some_iff)

lemma lookup_nth:
  assumes "distinct (map fst al)" and "i < length al" and "map_of al (fst (al ! i)) = Some v"
  shows "al ! i = (fst (al ! i), v)"
  using nth_distinct_lookup[OF assms(1,2)] assms(3) by (simp add: prod_eq_iff)

lemma merge_results_nth:
  assumes "merge_results entry ps (JObject kvs) = Inr store'" and "distinct (map fst kvs)"
  shows "\<exists>kvs'. store' = JObject kvs' \<and> map fst kvs' = map fst kvs
          \<and> (\<forall>i < length kvs. \<exists>v rec. ps = Some v \<and> i < length v
                 \<and> kvs ! i = (fst (kvs ! i), JObject rec)
                 \<and> kvs' ! i = (fst (kvs ! i), JObject (AList.update entry (JFloat (v ! i)) rec)))"
proof -
  from merge_results_record[OF assms] obtain kvs' where
    s: "store' = JObject kvs'" and k: "map fst kvs' = map fst kvs" and
    r: "\<forall>i < length kvs. \<exists>v rec. ps = Some v \<and> i < length v
                 \<and> map_of kvs (fst (kvs ! i)) = Some (JObject rec)
                 \<and> map_of kvs' (fst (kvs ! i)) = Some (JObject (AList.update entry (JFloat (v ! i)) rec))"
    by blast
  from k have len: "length kvs' = length kvs" by (metis length_map)
  from k assms(2) have d': "distinct (map fst kvs')" by simp
  have "\<forall>i < length kvs. \<exists>v rec. ps = Some v \<and> i < length v
                 \<and> kvs ! i = (fst (kvs ! i), JObject rec)
                 \<and> kvs' ! i = (fst (kvs ! i), JObject (AList.update entry (JFloat (v ! i)) rec))"
  proof (intro allI impI)
    fix i assume i: "i < length kvs"
    from r i obtain v rec where a: "ps = Some v" "i < length v"
      "map_of kvs (fst (kvs ! i)) = Some (JObject rec)"
      "map_of kvs' (fst (kvs ! i)) = Some (JObject (AList.update entry (JFloat (v ! i)) rec))"
      by blast
    from k i len have fi: "fst (kvs' ! i) = fst (kvs ! i)"
      by (metis nth_map)
    have 1: "kvs ! i = (fst (kvs ! i), JObject rec)"
      by (rule lookup_nth[OF assms(2) i a(3)])
    have 2: "kvs' ! i = (fst (kvs' ! i), JObject (AList.update entry (JFloat (v ! i)) rec))"
      by (rule lookup_nth[OF d']) (use i len a(4) fi in simp_all)
    from a(1,2) 1 2 fi
    show "\<exists>v rec. ps = Some v \<and> i < length v
                 \<and> kvs ! i = (fst (kvs ! i), JObject rec)
                 \<and> kvs' ! i = (fst (kvs ! i), JObject (AList.update entry (JFloat (v ! i)) rec))"
      by auto
  qed
  with s k show ?thesis by blast
qed

lemma direction_step_InrD:
  assumes "direction_step e m mt metadata fn i ds (store, st) = Inr (store', st')"
  shows "cache_step e m mt fn i ds st = Inr st'"
    and "merge_results (metadata @ ''_'' @ (if i = 0 then ''source'' else ''target'')) (preds st') store
           = Inr store'"
  using assms by (auto simp: direction_step_def Let_def ebind_eq_Inr)

lemma cache_step_files: "cache_step e m mt fn i ds st = Inr st' \<Longrightarrow> files st' = files st"
  by (auto simp: cache_step_def Let_def info_def ebind_eq_Inr split: if_splits)

lemma prepare_two:
  assumes "prepare_prediction_data str store tok n = Inr out"
  shows "\<exists>d0 d1. out = [d0, d1]"
  using assms by (auto simp: prepare_prediction_data_def ebind_eq_Inr dest: datasets_loop_two)

lemma file_step_InrD:
  assumes "file_step e tok m mt metadata n f st = Inr st'"
  shows "\<exists>store d0 d1 store1 st1 store2 st2.
           files st f = Some store
         \<and> prepare_prediction_data (py_str e) store tok n = Inr [d0, d1]
         \<and> direction_step e m mt metadata (basename f) 0 d0
             (store, info (''Processing file: '' @ f) st) = Inr (store1, st1)
         \<and> direction_step e m mt metadata (basename f) (Suc 0) d1 (store1, st1) = Inr (store2, st2)
         \<and> st' = st2\<lparr>files := (files st2)(f \<mapsto> store2)\<rparr>"
proof -
  let ?st0 = "info (''Processing file: '' @ f) st"
  from assms obtain store where store: "files st f = Some store"
    by (cases "files st f") (auto simp: file_step_def Let_def info_def)
  with assms obtain out s where
    p: "prepare_prediction_data (py_str e) store tok n = Inr out" and
    l: "directions_loop e m mt metadata (basename f) 0 out (store, ?st0) = Inr s" and
    r: "st' = (snd s)\<lparr>files := (files (snd s))(f \<mapsto> fst s)\<rparr>"
    by (auto simp: file_step_def Let_def info_def ebind_eq_Inr)
  from prepare_two[OF p] obtain d0 d1 where out: "out = [d0, d1]" by blast
  from l obtain s1 where
    a: "direction_step e m mt metadata (basename f) 0 d0 (store, ?st0) = Inr s1" and
    b: "direction_step e m mt metadata (basename f) (Suc 0) d1 s1 = Inr s"
    by (auto simp: out ebind_eq_Inr)
  show ?thesis
    using store p a b r unfolding out
    by (cases s1; cases s) auto
qed

lemma source_target_names: "metadata @ ''_source'' \<noteq> metadata @ ''_target''"
  by simp

lemma with_results_other:
  "f \<noteq> metadata @ ''_source'' \<Longrightarrow> f \<noteq> metadata @ ''_target''
   \<Longrightarrow> map_of (with_results metadata x y rec) f = map_of rec f"
  by (simp add: with_results_def AList.update_conv')

lemma with_results_fields:
  "map_of (with_results metadata x y rec) (metadata @ ''_source'') = Some (JFloat x)"
  "map_of (with_results metadata x y rec) (metadata @ ''_target'') = Some (JFloat y)"
  by (simp_all add: with_results_def AList.update_conv')

lemma update_fresh: "k \<notin> fst ` set al \<Longrightarrow> AList.update k v al = al @ [(k, v)]"
  by (induction al) auto

lemma with_results_fresh:
  assumes "metadata @ ''_source'' \<notin> fst ` set rec" and "metadata @ ''_target'' \<notin> fst ` set rec"
  shows "with_results metadata x y rec
           = rec @ [(metadata @ ''_source'', JFloat x), (metadata @ ''_target'', JFloat y)]"
proof -
  have 1: "AList.update (metadata @ ''_source'') (JFloat x) rec = rec @ [(metadata @ ''_source'', JFloat x)]"
    by (rule update_fresh[OF assms(1)])
  have "metadata @ ''_target'' \<notin> fst ` set (rec @ [(metadata @ ''_source'', JFloat x)])"
    using assms(2) by simp
  from update_fresh[OF this] show ?thesis
    by (simp add: with_results_def 1)
qed

lemma file_step_records:
  assumes "file_step e tok m mt metadata n input_file st = Inr st'"
      and "files st input_file = Some (JObject kvs)" and "distinct (map fst kvs)"
  shows "\<exists>kvs'. files st' input_file = Some (JObject kvs') \<and> map fst kvs' = map fst kvs
          \<and> (\<forall>i < length kvs. \<exists>rec x y. kvs ! i = (fst (kvs ! i), JObject rec)
                 \<and> kvs' ! i = (fst (kvs ! i), JObject (with_results metadata x y rec)))"
proof -
  from file_step_InrD[OF assms(1)] assms(2) obtain d0 d1 store1 st1 store2 st2 where
    a: "direction_step e m mt metadata (basename input_file) 0 d0
             (JObject kvs, info (''Processing file: '' @ input_file) st) = Inr (store1, st1)" and
    b: "direction_step e m mt metadata (basename input_file) (Suc 0) d1 (store1, st1) = Inr (store2, st2)" and
    r: "st' = st2\<lparr>files := (files st2)(input_file \<mapsto> store2)\<rparr>"
    by auto
  from direction_step_InrD(2)[OF a]
  have m1: "merge_results (metadata @ ''_source'') (preds st1) (JObject kvs) = Inr store1" by simp
  from merge_results_nth[OF m1 assms(3)] obtain kvs1 where
    s1: "store1 = JObject kvs1" and k1: "map fst kvs1 = map fst kvs" and
    r1: "\<forall>i < length kvs. \<exists>v rec. preds st1 = Some v \<and> i < length v
                 \<and> kvs ! i = (fst (kvs ! i), JObject rec)
                 \<and> kvs1 ! i = (fst (kvs ! i), JObject (AList.update (metadata @ ''_source'') (JFloat (v ! i)) rec))"
    by blast
  from direction_step_InrD(2)[OF b]
  have m2: "merge_results (metadata @ ''_target'') (preds st2) (JObject kvs1) = Inr store2"
    by (simp add: s1)
  from k1 assms(3) have d1: "distinct (map fst kvs1)" by simp
  from k1 have len: "length kvs1 = length kvs" by (metis length_map)
  from merge_results_nth[OF m2 d1] obtain kvs2 where
    s2: "store2 = JObject kvs2" and k2: "map fst kvs2 = map fst kvs1" and
    r2: "\<forall>i < length kvs1. \<exists>v rec. preds st2 = Some v \<and> i < length v
                 \<and> kvs1 ! i = (fst (kvs1 ! i), JObject rec)
                 \<and> kvs2 ! i = (fst (kvs1 ! i), JObject (AList.update (metadata @ ''_target'') (JFloat (v ! i)) rec))"
    by blast
  have "\<forall>i < length kvs. \<exists>rec x y. kvs ! i = (fst (kvs ! i), JObject rec)
                 \<and> kvs2 ! i = (fst (kvs ! i), JObject (with_results metadata x y rec))"
  proof (intro allI impI)
    fix i assume i: "i < length kvs"
    from r1 i obtain v rec where
      x: "kvs ! i = (fst (kvs ! i), JObject rec)"
         "kvs1 ! i = (fst (kvs ! i), JObject (AList.update (metadata @ ''_source'') (JFloat (v ! i)) rec))"
      by blast
    from r2 i len obtain v' rec' where
      y: "kvs1 ! i = (fst (kvs1 ! i), JObject rec')"
         "kvs2 ! i = (fst (kvs1 ! i), JObject (AList.update (metadata @ ''_target'') (JFloat (v' ! i)) rec'))"
      by (metis (no_types, lifting))
    from x(2) y(1) have "rec' = AList.update (metadata @ ''_source'') (JFloat (v ! i)) rec"
      and "fst (kvs1 ! i) = fst (kvs ! i)" by simp_all
    with y(2) have "kvs2 ! i = (fst (kvs ! i), JObject (with_results metadata (v ! i) (v' ! i) rec))"
      by (simp add: with_results_def)
    with x(1) show "\<exists>rec x y. kvs ! i = (fst (kvs ! i), JObject rec)
                 \<and> kvs2 ! i = (fst (kvs ! i), JObject (with_results metadata x y rec))"
      by blast
  qed
  moreover have "files st' input_file = Some (JObject kvs2)" by (simp add: r s2)
  moreover have "map fst kvs2 = map fst kvs" by (simp add: k1 k2)
  ultimately show ?thesis by blast
qed

text \<open>
  Claim C8, as amended. When the pass over a file succeeds, the file afterwards holds the same
  keys in the same order, and each record is the record it was with the two fields
  \<^verbatim>\<open><metadata>_source\<close> and \<^verbatim>\<open><metadata>_target\<close> set to scalars: every field
  with another name is what it was, and a record that had neither of the two names has exactly
  these two fields appended. (The keys of the file are distinct, as those of a dict are.)
\<close>

theorem merge_keeps_other_fields:
  "(file_step e tok m mt metadata n input_file st = Inr st'
      \<and> files st input_file = Some (JObject kvs) \<and> distinct (map fst kvs) \<longrightarrow>
      (\<exists>kvs'. files st' input_file = Some (JObject kvs') \<and> map fst kvs' = map fst kvs
          \<and> (\<forall>i < length kvs. \<exists>rec x y. kvs ! i = (fst (kvs ! i), JObject rec)
                 \<and> kvs' ! i = (fst (kvs ! i), JObject (with_results metadata x y rec)))))
   \<and> (\<forall>f. f \<noteq> metadata @ ''_source'' \<and> f \<noteq> metadata @ ''_target''
          \<longrightarrow> map_of (with_results metadata x y rec) f = map_of rec f)
   \<and> map_of (with_results metadata x y rec) (metadata @ ''_source'') = Some (JFloat x)
   \<and> map_of (with_results metadata x y rec) (metadata @ ''_target'') = Some (JFloat y)
   \<and> (metadata @ ''_source'' \<notin> fst ` set rec \<and> metadata @ ''_target'' \<notin> fst ` set rec
        \<longrightarrow> with_results metadata x y rec
              = rec @ [(metadata @ ''_source'', JFloat x), (metadata @ ''_target'', JFloat y)])"
  using file_step_records[of e tok m mt metadata n input_file st st' kvs]
        with_results_other[of _ metadata x y rec] with_results_fields[of metadata x y rec]
        with_results_fresh[of metadata rec x y]
  by blast

theorem merge_keeps_other_fields_witness:
  "file_step demo_env demo_tok demo_model ''bert'' ''M'' 1 ''wmtp_a.json''
      (initial [''wmtp_a.json'' \<mapsto> demo_corpus]) = Inr demo_after
   \<and> (\<exists>kvs'. files demo_after ''wmtp_a.json'' = Some (JObject kvs') \<and> map fst kvs' = [''k1'', ''k2''])"
proof -
  have run: "file_step demo_env demo_tok demo_model ''bert'' ''M'' 1 ''wmtp_a.json''
      (initial [''wmtp_a.json'' \<mapsto> demo_corpus]) = Inr demo_after"
    by (simp add: eval_defs demo_corpus_def demo_result_def demo_after_def upt_rec)
  have f: "files (initial [''wmtp_a.json'' \<mapsto> demo_corpus]) ''wmtp_a.json''
             = Some (JObject [(''k1'', demo_record ''a'' ''bb''), (''k2'', demo_record ''ccc'' ''dddd'')])"
    by (simp add: initial_def demo_corpus_def)
  have d: "distinct (map fst [(''k1'', demo_record ''a'' ''bb''), (''k2'', demo_record ''ccc'' ''dddd'')])"
    by simp
  let ?kvs = "[(''k1'', demo_record ''a'' ''bb''), (''k2'', demo_record ''ccc'' ''dddd'')]"
  note inst = merge_keeps_other_fields[of demo_env demo_tok demo_model "''bert''" "''M''" 1 "''wmtp_a.json''"
      "initial [''wmtp_a.json'' \<mapsto> demo_corpus]" demo_after ?kvs 0 0 "[]", THEN conjunct1]
  from mp[OF inst] run f d obtain kvs' where
    "files demo_after ''wmtp_a.json'' = Some (JObject kvs')" "map fst kvs' = map fst ?kvs"
    by blast
  then have "\<exists>kvs'. files demo_after ''wmtp_a.json'' = Some (JObject kvs') \<and> map fst kvs' = [''k1'', ''k2'']"
    by simp
  with run show ?thesis by simp
qed

text \<open>
  Claim C8 as stated fails for a record that already has a field of one of the two names, as
  after an earlier run with a checkpoint directory of the same name: the field
  \<^verbatim>\<open>M_source\<close>, which held 0, is overwritten, and one field is added, not two.
\<close>

theorem rerun_overwrites_result_field:
  "file_step demo_env demo_tok demo_model ''bert'' ''M'' 1 ''wmtp_a.json''
      (initial [''wmtp_a.json'' \<mapsto>
          JObject [(''k1'', demo_result ''a'' ''bb'' [(''M_source'', JFloat 0)])]])
   = Inr \<lparr>wmt_source_cache = Some [1/2], ar_source_cache = None, preds = Some [2/3],
          files = [''wmtp_a.json'' \<mapsto>
                     JObject [(''k1'', demo_result ''a'' ''bb''
                                [(''M_source'', JFloat (1/2)), (''M_target'', JFloat (2/3))])]],
          logged = [''Processing file: wmtp_a.json'', ''Initializing prediction'',
                    ''Initializing prediction'']\<rparr>"
  by (simp add: eval_defs demo_result_def upt_rec)

section \<open>The caches\<close>

lemma cache_step_reuse_wmtp:
  assumes "wmtp_only fn" and "wmt_source_cache st = Some c"
  shows "cache_step e m mt fn 0 ds st
           = Inr ((info ''Using cached results instead of re-computing'' st)\<lparr>preds := Some c\<rparr>)"
  using assms by (simp add: cache_step_def wmtp_only_def Let_def info_def)

lemma cache_step_first_wmtp:
  assumes "wmtp_only fn" and "wmt_source_cache st = None"
  shows "cache_step e m mt fn 0 ds st =
           ebind (DataLoader ds (batch_size e)) (\<lambda>dl. ebind (predict m mt dl) (\<lambda>ps.
             Inr ((info ''Initializing prediction'' st)\<lparr>preds := Some ps, wmt_source_cache := Some ps\<rparr>)))"
  using assms by (simp add: cache_step_def wmtp_only_def Let_def)

lemma cache_step_keeps_wmt:
  assumes "cache_step e m mt fn i ds st = Inr st'" and "wmt_source_cache st = Some c"
  shows "wmt_source_cache st' = Some c"
  using assms by (auto simp: cache_step_def Let_def info_def ebind_eq_Inr split: if_splits)

lemma file_step_written:
  assumes "file_step e tok m mt metadata n f st = Inr st'"
      and "files st f = Some (JObject kvs)" and "distinct (map fst kvs)"
  shows "\<exists>d0 d1 st1 st2 kvs'.
            prepare_prediction_data (py_str e) (JObject kvs) tok n = Inr [d0, d1]
          \<and> cache_step e m mt (basename f) 0 d0 (info (''Processing file: '' @ f) st) = Inr st1
          \<and> cache_step e m mt (basename f) (Suc 0) d1 st1 = Inr st2
          \<and> st' = st2\<lparr>files := (files st2)(f \<mapsto> JObject kvs')\<rparr>
          \<and> map fst kvs' = map fst kvs
          \<and> (\<forall>i < length kvs. \<exists>v w rec. preds st1 = Some v \<and> i < length v
                 \<and> preds st2 = Some w \<and> i < length w
                 \<and> kvs ! i = (fst (kvs ! i), JObject rec)
                 \<and> kvs' ! i = (fst (kvs ! i), JObject (with_results metadata (v ! i) (w ! i) rec)))"
proof -
  from file_step_InrD[OF assms(1)] assms(2) obtain d0 d1 store1 st1 store2 st2 where
    p: "prepare_prediction_data (py_str e) (JObject kvs) tok n = Inr [d0, d1]" and
    a: "direction_step e m mt metadata (basename f) 0 d0
             (JObject kvs, info (''Processing file: '' @ f) st) = Inr (store1, st1)" and
    b: "direction_step e m mt metadata (basename f) (Suc 0) d1 (store1, st1) = Inr (store2, st2)" and
    r: "st' = st2\<lparr>files := (files st2)(f \<mapsto> store2)\<rparr>"
    by auto
  from direction_step_InrD(2)[OF a]
  have m1: "merge_results (metadata @ ''_source'') (preds st1) (JObject kvs) = Inr store1" by simp
  from merge_results_nth[OF m1 assms(3)] obtain kvs1 where
    s1: "store1 = JObject kvs1" and k1: "map fst kvs1 = map fst kvs" and
    r1: "\<forall>i < length kvs. \<exists>v rec. preds st1 = Some v \<and> i < length v
                 \<and> kvs ! i = (fst (kvs ! i), JObject rec)
                 \<and> kvs1 ! i = (fst (kvs ! i), JObject (AList.update (metadata @ ''_source'') (JFloat (v ! i)) rec))"
    by blast
  from direction_step_InrD(2)[OF b]
  have m2: "merge_results (metadata @ ''_target'') (preds st2) (JObject kvs1) = Inr store2"
    by (simp add: s1)
  from k1 assms(3) have d1: "distinct (map fst kvs1)" by simp
  from k1 have len: "length kvs1 = length kvs" by (metis length_map)
  from merge_results_nth[OF m2 d1] obtain kvs2 where
    s2: "store2 = JObject kvs2" and k2: "map fst kvs2 = map fst kvs1" and
    r2: "\<forall>i < length kvs1. \<exists>v rec. preds st2 = Some v \<and> i < length v
                 \<and> kvs1 ! i = (fst (kvs1 ! i), JObject rec)
                 \<and> kvs2 ! i = (fst (kvs1 ! i), JObject (AList.update (metadata @ ''_target'') (JFloat (v ! i)) rec))"
    by blast
  have "\<forall>i < length kvs. \<exists>v w rec. preds st1 = Some v \<and> i < length v
                 \<and> preds st2 = Some w \<and> i < length w
                 \<and> kvs ! i = (fst (kvs ! i), JObject rec)
                 \<and> kvs2 ! i = (fst (kvs ! i), JObject (with_results metadata (v ! i) (w ! i) rec))"
  proof (intro allI impI)
    fix i assume i: "i < length kvs"
    from r1 i obtain v rec where
      x: "preds st1 = Some v" "i < length v" "kvs ! i = (fst (kvs ! i), JObject rec)"
         "kvs1 ! i = (fst (kvs ! i), JObject (AList.update (metadata @ ''_source'') (JFloat (v ! i)) rec))"
      by blast
    from i len have "i < length kvs1" by simp
    with r2 obtain w rec' where
      y: "preds st2 = Some w" "i < length w" "kvs1 ! i = (fst (kvs1 ! i), JObject rec')"
         "kvs2 ! i = (fst (kvs1 ! i), JObject (AList.update (metadata @ ''_target'') (JFloat (w ! i)) rec'))"
      by blast
    from x(4) y(3) have "rec' = AList.update (metadata @ ''_source'') (JFloat (v ! i)) rec"
      and "fst (kvs1 ! i) = fst (kvs ! i)" by simp_all
    with y(4) have "kvs2 ! i = (fst (kvs ! i), JObject (with_results metadata (v ! i) (w ! i) rec))"
      by (simp add: with_results_def)
    with x(1,2,3) y(1,2) show "\<exists>v w rec. preds st1 = Some v \<and> i < length v
                 \<and> preds st2 = Some w \<and> i < length w
                 \<and> kvs ! i = (fst (kvs ! i), JObject rec)
                 \<and> kvs2 ! i = (fst (kvs ! i), JObject (with_results metadata (v ! i) (w ! i) rec))"
      by blast
  qed
  moreover have "st' = st2\<lparr>files := (files st2)(f \<mapsto> JObject kvs2)\<rparr>" by (simp add: r s2)
  moreover have "map fst kvs2 = map fst kvs" by (simp add: k1 k2)
  moreover note p direction_step_InrD(1)[OF a] direction_step_InrD(1)[OF b]
  ultimately show ?thesis by blast
qed

lemma file_step_caches:
  assumes "file_step e tok m mt metadata n f st = Inr st'"
  shows "\<exists>d0 d1 st1 st2 store.
            files st f = Some store
          \<and> prepare_prediction_data (py_str e) store tok n = Inr [d0, d1]
          \<and> cache_step e m mt (basename f) 0 d0 (info (''Processing file: '' @ f) st) = Inr st1
          \<and> cache_step e m mt (basename f) (Suc 0) d1 st1 = Inr st2
          \<and> wmt_source_cache st' = wmt_source_cache st2
          \<and> ar_source_cache st' = ar_source_cache st2
          \<and> preds st' = preds st2 \<and> logged st' = logged st2"
proof -
  from file_step_InrD[OF assms] obtain store d0 d1 store1 st1 store2 st2 where
    s: "files st f = Some store" and
    p: "prepare_prediction_data (py_str e) store tok n = Inr [d0, d1]" and
    a: "direction_step e m mt metadata (basename f) 0 d0
             (store, info (''Processing file: '' @ f) st) = Inr (store1, st1)" and
    b: "direction_step e m mt metadata (basename f) (Suc 0) d1 (store1, st1) = Inr (store2, st2)" and
    r: "st' = st2\<lparr>files := (files st2)(f \<mapsto> store2)\<rparr>"
    by blast
  from s p direction_step_InrD(1)[OF a] direction_step_InrD(1)[OF b] r
  show ?thesis by auto
qed

lemma file_step_keeps_wmt:
  assumes "file_step e tok m mt metadata n f st = Inr st'" and "wmt_source_cache st = Some c"
  shows "wmt_source_cache st' = Some c"
proof -
  from file_step_caches[OF assms(1)] obtain d0 d1 st1 st2 where
    a: "cache_step e m mt (basename f) 0 d0 (info (''Processing file: '' @ f) st) = Inr st1" and
    b: "cache_step e m mt (basename f) (Suc 0) d1 st1 = Inr st2" and
    r: "wmt_source_cache st' = wmt_source_cache st2"
    by blast
  have "wmt_source_cache (info (''Processing file: '' @ f) st) = Some c"
    using assms(2) by (simp add: info_def)
  from cache_step_keeps_wmt[OF b cache_step_keeps_wmt[OF a this]] r show ?thesis by simp
qed

lemma files_loop_keeps_wmt:
  "files_loop e tok m mt metadata n fs st = Inr st' \<Longrightarrow> wmt_source_cache st = Some c
   \<Longrightarrow> wmt_source_cache st' = Some c"
proof (induction fs arbitrary: st)
  case Nil
  then show ?case by simp
next
  case (Cons f fs)
  from Cons.prems(1) obtain s1 where
    a: "file_step e tok m mt metadata n f st = Inr s1" and
    b: "files_loop e tok m mt metadata n fs s1 = Inr st'"
    by (auto simp: ebind_eq_Inr)
  from Cons.IH[OF b file_step_keeps_wmt[OF a Cons.prems(2)]] show ?case .
qed

lemma cache_step_target_InrD:
  assumes "cache_step e m mt fn (Suc 0) ds st = Inr st'"
  shows "\<exists>ps. st' = (info ''Initializing prediction'' st)\<lparr>preds := Some ps\<rparr>"
  using assms by (auto simp: cache_step_target ebind_eq_Inr)

lemma demo_stA_eq:
  "demo_stA = \<lparr>wmt_source_cache = Some [1/2], ar_source_cache = None, preds = Some [2/3],
      files = demo_disk(''wmtp_a.json'' \<mapsto>
                 JObject [(''k1'', demo_result ''a'' ''bb''
                            [(''M_source'', JFloat (1/2)), (''M_target'', JFloat (2/3))])]),
      logged = [''Processing file: wmtp_a.json'', ''Initializing prediction'',
                ''Initializing prediction'']\<rparr>"
  by (simp add: demo_stA_def eval_defs demo_disk_def demo_result_def upt_rec)

lemma demo_runA:
  "file_step demo_env demo_tok demo_model ''bert'' ''M'' 1 ''wmtp_a.json'' (initial demo_disk) = Inr demo_stA"
  unfolding demo_stA_eq
  by (simp add: eval_defs demo_disk_def demo_result_def upt_rec)

lemma demo_stB_eq:
  "demo_stB = \<lparr>wmt_source_cache = Some [1/2], ar_source_cache = None, preds = Some [4/5],
      files = (files demo_stA)(''wmtp_b.json'' \<mapsto>
                 JObject [(''k2'', demo_result ''xyz'' ''dddd''
                            [(''M_source'', JFloat (1/2)), (''M_target'', JFloat (4/5))])]),
      logged = logged demo_stA @ [''Processing file: wmtp_b.json'',
                ''Using cached results instead of re-computing'', ''Initializing prediction'']\<rparr>"
  unfolding demo_stB_def demo_stA_eq
  by (simp add: eval_defs demo_disk_def demo_result_def upt_rec)

lemma demo_runB:
  "file_step demo_env demo_tok demo_model ''bert'' ''M'' 1 ''wmtp_b.json'' demo_stA = Inr demo_stB"
  unfolding demo_stB_eq unfolding demo_stA_eq
  by (simp add: eval_defs demo_disk_def demo_result_def upt_rec)

lemma demo_stC_eq:
  "demo_stC = \<lparr>wmt_source_cache = Some [1/2], ar_source_cache = Some [3/4], preds = Some [4/5],
      files = (files demo_stA)(''wmtp_arp_c.json'' \<mapsto>
                 JObject [(''k3'', demo_result ''xyz'' ''dddd''
                            [(''M_source'', JFloat (3/4)), (''M_target'', JFloat (4/5))])]),
      logged = logged demo_stA @ [''Processing file: wmtp_arp_c.json'',
                ''Initializing prediction'', ''Initializing prediction'']\<rparr>"
  unfolding demo_stC_def demo_stA_eq
  by (simp add: eval_defs demo_disk_def demo_result_def upt_rec)

lemma demo_runC:
  "file_step demo_env demo_tok demo_model ''bert'' ''M'' 1 ''wmtp_arp_c.json'' demo_stA = Inr demo_stC"
  unfolding demo_stC_eq unfolding demo_stA_eq
  by (simp add: eval_defs demo_disk_def demo_result_def upt_rec)

text \<open>
  Claim C2, as amended. Take two files whose names hold \<^verbatim>\<open>wmtp\<close> and not
  \<^verbatim>\<open>arp\<close>, processed in this order under one checkpoint, with any files in between.
  After the first the \<^verbatim>\<open>wmtp\<close> cache holds a vector \<open>c\<close>, which is the engine's result for
  the source dataset of the first file when the cache was empty before it. For the second file
  the source pass does not depend on the model or the dataset (it takes the branch that logs
  the reuse), the file has at most as many keys as \<open>c\<close> has entries, and the source field of
  its \<open>i\<close>-th record is \<open>c ! i\<close>.
\<close>

theorem wmtp_cache_reused:
  assumes A: "wmtp_only (basename fA)" and B: "wmtp_only (basename fB)"
    and runA: "file_step e tok m mt md n fA st = Inr stA"
    and mid: "files_loop e tok m mt md n mid stA = Inr stM"
    and runB: "file_step e tok m mt md n fB stM = Inr stB"
    and fB: "files stM fB = Some (JObject kvs)" and dist: "distinct (map fst kvs)"
  shows "\<exists>c. wmt_source_cache stA = Some c
     \<and> (wmt_source_cache st = None \<longrightarrow>
           (\<exists>storeA d0 d1 dl. files st fA = Some storeA
              \<and> prepare_prediction_data (py_str e) storeA tok n = Inr [d0, d1]
              \<and> DataLoader d0 (batch_size e) = Inr dl \<and> predict m mt dl = Inr c))
     \<and> (\<forall>m' ds. cache_step e m' mt (basename fB) 0 ds (info (''Processing file: '' @ fB) stM)
           = Inr ((info ''Using cached results instead of re-computing''
                    (info (''Processing file: '' @ fB) stM))\<lparr>preds := Some c\<rparr>))
     \<and> (\<exists>kvs'. files stB fB = Some (JObject kvs') \<and> map fst kvs' = map fst kvs
           \<and> length kvs \<le> length c
           \<and> (\<forall>i < length kvs. \<exists>rec. kvs' ! i = (fst (kvs ! i), JObject rec)
                  \<and> map_of rec (md @ ''_source'') = Some (JFloat (c ! i))))
     \<and> logged stB = logged stM @ [''Processing file: '' @ fB,
          ''Using cached results instead of re-computing'', ''Initializing prediction'']"
proof -
  let ?P = "\<lambda>c. wmt_source_cache st = None \<longrightarrow>
           (\<exists>storeA d0 d1 dl. files st fA = Some storeA
              \<and> prepare_prediction_data (py_str e) storeA tok n = Inr [d0, d1]
              \<and> DataLoader d0 (batch_size e) = Inr dl \<and> predict m mt dl = Inr c)"
  have "\<exists>c. wmt_source_cache stA = Some c \<and> ?P c"
  proof -
    from file_step_caches[OF runA] obtain d0 d1 st1 st2 store where
      s: "files st fA = Some store" and
      p: "prepare_prediction_data (py_str e) store tok n = Inr [d0, d1]" and
      a: "cache_step e m mt (basename fA) 0 d0 (info (''Processing file: '' @ fA) st) = Inr st1" and
      b: "cache_step e m mt (basename fA) (Suc 0) d1 st1 = Inr st2" and
      r: "wmt_source_cache stA = wmt_source_cache st2"
      by blast
    show ?thesis
    proof (cases "wmt_source_cache st")
      case None
      then have "wmt_source_cache (info (''Processing file: '' @ fA) st) = None"
        by (simp add: info_def)
      from a[unfolded cache_step_first_wmtp[OF A this]] obtain dl ps where
        dl: "DataLoader d0 (batch_size e) = Inr dl" and ps: "predict m mt dl = Inr ps" and
        st1: "st1 = (info ''Initializing prediction'' (info (''Processing file: '' @ fA) st))
                     \<lparr>preds := Some ps, wmt_source_cache := Some ps\<rparr>"
        by (auto simp: ebind_eq_Inr)
      from st1 have "wmt_source_cache st1 = Some ps" by simp
      from cache_step_keeps_wmt[OF b this] r have "wmt_source_cache stA = Some ps" by simp
      with s p dl ps show ?thesis by blast
    next
      case (Some c0)
      then have "wmt_source_cache (info (''Processing file: '' @ fA) st) = Some c0"
        by (simp add: info_def)
      from cache_step_keeps_wmt[OF b cache_step_keeps_wmt[OF a this]] r Some
      show ?thesis by simp
    qed
  qed
  then obtain c where cP: "wmt_source_cache stA = Some c \<and> ?P c" ..
  note cA = cP[THEN conjunct1] and P = cP[THEN conjunct2]
  from files_loop_keeps_wmt[OF mid cA] have cM: "wmt_source_cache stM = Some c" .
  let ?s0 = "info (''Processing file: '' @ fB) stM"
  let ?s1 = "(info ''Using cached results instead of re-computing'' ?s0)\<lparr>preds := Some c\<rparr>"
  have c0: "wmt_source_cache ?s0 = Some c" using cM by (simp add: info_def)
  have reuse: "\<forall>m' ds. cache_step e m' mt (basename fB) 0 ds ?s0 = Inr ?s1"
    using cache_step_reuse_wmtp[OF B c0] by blast
  from file_step_written[OF runB fB dist] obtain d0 d1 st1 st2 kvs' where
    a: "cache_step e m mt (basename fB) 0 d0 ?s0 = Inr st1" and
    b: "cache_step e m mt (basename fB) (Suc 0) d1 st1 = Inr st2" and
    r: "stB = st2\<lparr>files := (files st2)(fB \<mapsto> JObject kvs')\<rparr>" and
    k: "map fst kvs' = map fst kvs" and
    w: "\<forall>i < length kvs. \<exists>v w rec. preds st1 = Some v \<and> i < length v
                 \<and> preds st2 = Some w \<and> i < length w
                 \<and> kvs ! i = (fst (kvs ! i), JObject rec)
                 \<and> kvs' ! i = (fst (kvs ! i), JObject (with_results md (v ! i) (w ! i) rec))"
    by blast
  from a reuse have st1: "st1 = ?s1" by simp
  then have p1: "preds st1 = Some c" by simp
  have lenc: "length kvs \<le> length c"
  proof (rule ccontr)
    assume "\<not> length kvs \<le> length c"
    then have "length c < length kvs" by simp
    with w p1 show False by fastforce
  qed
  have vals: "\<forall>i < length kvs. \<exists>rec. kvs' ! i = (fst (kvs ! i), JObject rec)
                  \<and> map_of rec (md @ ''_source'') = Some (JFloat (c ! i))"
  proof (intro allI impI)
    fix i assume "i < length kvs"
    with w p1 obtain w' rec where
      "kvs' ! i = (fst (kvs ! i), JObject (with_results md (c ! i) (w' ! i) rec))"
      by fastforce
    then show "\<exists>rec. kvs' ! i = (fst (kvs ! i), JObject rec)
                  \<and> map_of rec (md @ ''_source'') = Some (JFloat (c ! i))"
      using with_results_fields(1) by blast
  qed
  have fl: "files stB fB = Some (JObject kvs')" by (simp add: r)
  from cache_step_target_InrD[OF b] obtain ps where
    "st2 = (info ''Initializing prediction'' st1)\<lparr>preds := Some ps\<rparr>" by blast
  then have lg: "logged stB = logged stM @ [''Processing file: '' @ fB,
          ''Using cached results instead of re-computing'', ''Initializing prediction'']"
    by (simp add: r st1 info_def)
  have ex: "\<exists>kvs'. files stB fB = Some (JObject kvs') \<and> map fst kvs' = map fst kvs
           \<and> length kvs \<le> length c
           \<and> (\<forall>i < length kvs. \<exists>rec. kvs' ! i = (fst (kvs ! i), JObject rec)
                  \<and> map_of rec (md @ ''_source'') = Some (JFloat (c ! i)))"
    by (rule exI[of _ kvs'], intro conjI) (rule fl, rule k, rule lenc, rule vals)
  show ?thesis
    by (rule exI[of _ c], intro conjI) (rule cA, rule P, rule reuse, rule ex, rule lg)
qed

theorem wmtp_cache_reused_witness:
  "file_step demo_env demo_tok demo_model ''bert'' ''M'' 1 ''wmtp_a.json'' (initial demo_disk) = Inr demo_stA
   \<and> file_step demo_env demo_tok demo_model ''bert'' ''M'' 1 ''wmtp_b.json'' demo_stA = Inr demo_stB
   \<and> wmt_source_cache demo_stA = Some [1/2]
   \<and> files demo_stB ''wmtp_b.json'' =
        Some (JObject [(''k2'', demo_result ''xyz'' ''dddd''
                         [(''M_source'', JFloat (1/2)), (''M_target'', JFloat (4/5))])])
   \<and> (\<exists>c. wmt_source_cache demo_stA = Some c
          \<and> logged demo_stB = logged demo_stA @ [''Processing file: wmtp_b.json'',
               ''Using cached results instead of re-computing'', ''Initializing prediction''])"
proof -
  have A: "wmtp_only (basename ''wmtp_a.json'')" and B: "wmtp_only (basename ''wmtp_b.json'')"
    by (simp_all add: wmtp_only_def basename_def)
  have mid: "files_loop demo_env demo_tok demo_model ''bert'' ''M'' 1 [] demo_stA = Inr demo_stA"
    by simp
  have fB: "files demo_stA ''wmtp_b.json'' = Some (JObject [(''k2'', demo_record ''xyz'' ''dddd'')])"
    by (simp add: demo_stA_eq demo_disk_def)
  have d: "distinct (map fst [(''k2'', demo_record ''xyz'' ''dddd'')])"
    by simp
  from wmtp_cache_reused[OF A B demo_runA mid demo_runB fB d]
  obtain c where c: "wmt_source_cache demo_stA = Some c"
    and l: "logged demo_stB = logged demo_stA @ [''Processing file: '' @ ''wmtp_b.json'',
               ''Using cached results instead of re-computing'', ''Initializing prediction'']"
    by (elim exE conjE)
  from c l have last: "\<exists>c. wmt_source_cache demo_stA = Some c
          \<and> logged demo_stB = logged demo_stA @ [''Processing file: wmtp_b.json'',
               ''Using cached results instead of re-computing'', ''Initializing prediction'']"
    by simp
  have 3: "wmt_source_cache demo_stA = Some [1/2]"
    by (simp add: demo_stA_eq)
  have 4: "files demo_stB ''wmtp_b.json'' =
        Some (JObject [(''k2'', demo_result ''xyz'' ''dddd''
                         [(''M_source'', JFloat (1/2)), (''M_target'', JFloat (4/5))])])"
    by (simp add: demo_stB_eq)
  show ?thesis
    by (intro conjI) (rule demo_runA, rule demo_runB, rule 3, rule 4, rule last)
qed

text \<open>
  Claim C2 as stated fails for a second file whose name holds \<^verbatim>\<open>arp\<close> as well as
  \<^verbatim>\<open>wmtp\<close>: it is served by the \<^verbatim>\<open>arp\<close> cache, which is empty, so the engine runs
  and the source field is the file's own probability \<open>3/4\<close>, not the cached \<open>1/2\<close>.
\<close>

theorem second_wmtp_file_with_arp_is_recomputed:
  "contains ''wmtp_a.json'' ''wmtp'' \<and> contains ''wmtp_arp_c.json'' ''wmtp''
   \<and> file_step demo_env demo_tok demo_model ''bert'' ''M'' 1 ''wmtp_a.json'' (initial demo_disk) = Inr demo_stA
   \<and> wmt_source_cache demo_stA = Some [1/2]
   \<and> file_step demo_env demo_tok demo_model ''bert'' ''M'' 1 ''wmtp_arp_c.json'' demo_stA = Inr demo_stC
   \<and> files demo_stC ''wmtp_arp_c.json'' =
        Some (JObject [(''k3'', demo_result ''xyz'' ''dddd''
                         [(''M_source'', JFloat (3/4)), (''M_target'', JFloat (4/5))])])
   \<and> logged demo_stC = logged demo_stA @ [''Processing file: wmtp_arp_c.json'',
        ''Initializing prediction'', ''Initializing prediction'']"
proof -
  have 1: "contains ''wmtp_a.json'' ''wmtp''" and 2: "contains ''wmtp_arp_c.json'' ''wmtp''"
    by simp_all
  have 4: "wmt_source_cache demo_stA = Some [1/2]"
    by (simp add: demo_stA_eq)
  have 6: "files demo_stC ''wmtp_arp_c.json'' =
        Some (JObject [(''k3'', demo_result ''xyz'' ''dddd''
                         [(''M_source'', JFloat (3/4)), (''M_target'', JFloat (4/5))])])"
    by (simp add: demo_stC_eq)
  have 7: "logged demo_stC = logged demo_stA @ [''Processing file: wmtp_arp_c.json'',
        ''Initializing prediction'', ''Initializing prediction'']"
    by (simp add: demo_stC_eq)
  show ?thesis
    by (intro conjI) (rule 1, rule 2, rule demo_runA, rule 4, rule demo_runC, rule 6, rule 7)
qed

section \<open>Checkpoints do not share predictions\<close>

lemma checkpoint_step_cache_indep:
  "checkpoint_step e fs mp (st\<lparr>wmt_source_cache := x, ar_source_cache := y\<rparr>) = checkpoint_step e fs mp st"
  by (simp add: checkpoint_step_def Let_def info_def)

lemma checkpoint_step_no_files:
  assumes "checkpoint_step e [] mp st = Inr st'"
  shows "wmt_source_cache st' = None \<and> ar_source_cache st' = None"
  using assms by (auto simp: checkpoint_step_def Let_def info_def ebind_eq_Inr)

lemma cache_step_tagged_preds:
  assumes "tagged fn" and "wmt_source_cache st = None" and "ar_source_cache st = None"
  shows "cache_step e m mt fn 0 ds (st\<lparr>preds := p\<rparr>) = cache_step e m mt fn 0 ds st"
  using assms by (auto simp: cache_step_def tagged_def Let_def info_def)

lemma direction_step_tagged_preds:
  assumes "tagged fn" and "wmt_source_cache st = None" and "ar_source_cache st = None"
  shows "direction_step e m mt md fn 0 ds (store, st\<lparr>preds := p\<rparr>)
           = direction_step e m mt md fn 0 ds (store, st)"
  by (simp add: direction_step_def cache_step_tagged_preds[OF assms])

lemma info_preds: "info msg (st\<lparr>preds := p\<rparr>) = (info msg st)\<lparr>preds := p\<rparr>"
  by (simp add: info_def)

lemma info_fields [simp]:
  "files (info msg st) = files st" "preds (info msg st) = preds st"
  "wmt_source_cache (info msg st) = wmt_source_cache st"
  "ar_source_cache (info msg st) = ar_source_cache st"
  by (simp_all add: info_def)

lemma file_step_tagged_preds:
  assumes "tagged (basename f)" and "wmt_source_cache st = None" and "ar_source_cache st = None"
  shows "file_step e tok m mt md n f (st\<lparr>preds := p\<rparr>) = file_step e tok m mt md n f st"
proof (cases "files st f")
  case None
  then show ?thesis by (simp add: file_step_def Let_def)
next
  case (Some store)
  have d: "\<And>msg d. direction_step e m mt md (basename f) 0 d (store, (info msg st)\<lparr>preds := p\<rparr>)
                   = direction_step e m mt md (basename f) 0 d (store, info msg st)"
    by (rule direction_step_tagged_preds[OF assms(1)]) (simp_all add: assms(2,3))
  show ?thesis
  proof (cases "prepare_prediction_data (py_str e) store tok n")
    case (Inl err)
    then show ?thesis by (simp add: file_step_def Let_def Some)
  next
    case (Inr out)
    from prepare_two[OF Inr] obtain d0 d1 where out: "out = [d0, d1]" by blast
    show ?thesis
      by (simp add: file_step_def Let_def info_preds Some Inr out d)
  qed
qed

lemma checkpoint_step_preds_indep:
  assumes "tagged (basename f)"
  shows "checkpoint_step e (f # rest) mp (st\<lparr>preds := p\<rparr>) = checkpoint_step e (f # rest) mp st"
proof -
  have i: "\<And>msg. (info msg (st\<lparr>preds := p\<rparr>))\<lparr>wmt_source_cache := None, ar_source_cache := None\<rparr>
             = ((info msg st)\<lparr>wmt_source_cache := None, ar_source_cache := None\<rparr>)\<lparr>preds := p\<rparr>"
    by (simp add: info_def)
  have fs: "\<And>msg tok m mt md n.
      file_step e tok m mt md n f
         (((info msg st)\<lparr>wmt_source_cache := None, ar_source_cache := None\<rparr>)\<lparr>preds := p\<rparr>)
      = file_step e tok m mt md n f ((info msg st)\<lparr>wmt_source_cache := None, ar_source_cache := None\<rparr>)"
    by (rule file_step_tagged_preds[OF assms]) simp_all
  show ?thesis
    by (simp add: checkpoint_step_def Let_def i fs)
qed

lemma cache_step_untagged:
  assumes "\<not> tagged fn"
  shows "cache_step e m mt fn 0 ds st = Inr (info ''Using cached results instead of re-computing'' st)"
  using assms by (simp add: cache_step_def tagged_def Let_def)

lemma merge_loop_unbound:
  assumes "merge_loop entry None j ks kvs = Inr kvs'"
  shows "ks = []"
proof (cases ks)
  case Nil then show ?thesis .
next
  case (Cons k rest)
  with merge_loop_ConsD[of entry None j k rest kvs kvs'] assms show ?thesis by auto
qed

lemma untagged_first_fails:
  assumes "\<not> tagged (basename f)" and "preds st = None"
  shows "file_step e tok m mt md n f st \<noteq> Inr st'"
proof
  assume ok: "file_step e tok m mt md n f st = Inr st'"
  from file_step_InrD[OF ok] obtain store d0 d1 store1 st1 store2 st2 where
    p: "prepare_prediction_data (py_str e) store tok n = Inr [d0, d1]" and
    a: "direction_step e m mt md (basename f) 0 d0
             (store, info (''Processing file: '' @ f) st) = Inr (store1, st1)" and
    b: "direction_step e m mt md (basename f) (Suc 0) d1 (store1, st1) = Inr (store2, st2)"
    by blast
  from direction_step_InrD(1)[OF a] cache_step_untagged[OF assms(1)]
  have "st1 = info ''Using cached results instead of re-computing'' (info (''Processing file: '' @ f) st)"
    by simp
  then have "preds st1 = None" using assms(2) by (simp add: info_def)
  with direction_step_InrD(2)[OF a]
  have "merge_results (md @ ''_source'') None store = Inr store1" by simp
  from merge_results_InrD[OF this] obtain kvs kvs1 where
    store: "store = JObject kvs" and "merge_loop (md @ ''_source'') None 0 (map fst kvs) kvs = Inr kvs1"
    by blast
  from merge_loop_unbound[OF this(2)] have "kvs = []" by simp
  with p store have "d1 = empty_dataset" by (simp add: prepare_empty)
  with direction_step_InrD(1)[OF b]
  have "cache_step e m mt (basename f) (Suc 0) empty_dataset st1 = Inr st2" by simp
  then show False
    by (cases "batch_size e \<le> 0") (simp_all add: cache_step_target DataLoader_empty predict_Nil)
qed

lemma checkpoint_step_InrD:
  assumes "checkpoint_step e fs mp st = Inr st'"
  shows "\<exists>n tok m mt msg. files_loop e tok m mt (basename (dirname mp)) n fs
           ((info msg st)\<lparr>wmt_source_cache := None, ar_source_cache := None\<rparr>) = Inr st'"
  using assms unfolding checkpoint_step_def Let_def ebind_eq_Inr by blast

lemma first_file_tagged:
  assumes "checkpoint_step e (f # rest) mp st = Inr st'" and "preds st = None"
  shows "tagged (basename f)"
proof (rule ccontr)
  assume nt: "\<not> tagged (basename f)"
  from checkpoint_step_InrD[OF assms(1)] obtain n tok m mt msg s1 where
    "file_step e tok m mt (basename (dirname mp)) n f
       ((info msg st)\<lparr>wmt_source_cache := None, ar_source_cache := None\<rparr>) = Inr s1"
    by (auto simp: ebind_eq_Inr)
  moreover have "preds ((info msg st)\<lparr>wmt_source_cache := None, ar_source_cache := None\<rparr>) = None"
    using assms(2) by simp
  ultimately show False using untagged_first_fails[OF nt] by blast
qed

lemma demo_first_run:
  "checkpoints_loop demo_env [''wmtp_a.json''] [''m/bert.ML1/ckpt''] (initial demo_disk) = Inr demo_first"
  unfolding demo_first_def
  by (simp add: eval_defs demo_disk_def upt_rec)

lemma demo_first_caches:
  "wmt_source_cache demo_first = Some [1/2]" "preds demo_first = Some [2/3]"
  unfolding demo_first_def
  by (simp_all add: eval_defs demo_disk_def upt_rec)

text \<open>
  Claim C3. The pass for a checkpoint gives the same result whatever the two caches hold when
  it starts, and it enters its file loop with both caches empty (with no files, the state it
  returns is the state it enters the loop with). Moreover, in a run of \<open>main\<close> that has
  completed an earlier checkpoint over a non-empty list of files, the pass does not depend on the
  variable \<^verbatim>\<open>preds\<close> either: no vector computed under an earlier checkpoint has any
  effect on what is written under this one.
\<close>

theorem caches_reset_per_checkpoint:
  "checkpoint_step e fs mp (st\<lparr>wmt_source_cache := x, ar_source_cache := y\<rparr>) = checkpoint_step e fs mp st
   \<and> (\<forall>st'. checkpoint_step e [] mp st = Inr st'
          \<longrightarrow> wmt_source_cache st' = None \<and> ar_source_cache st' = None)
   \<and> (pre \<noteq> [] \<and> fs \<noteq> [] \<and> checkpoints_loop e fs pre (initial disk) = Inr st
        \<longrightarrow> checkpoint_step e fs mp (st\<lparr>wmt_source_cache := x, ar_source_cache := y, preds := p\<rparr>)
              = checkpoint_step e fs mp st)"
proof (intro conjI allI impI)
  show "checkpoint_step e fs mp (st\<lparr>wmt_source_cache := x, ar_source_cache := y\<rparr>) = checkpoint_step e fs mp st"
    by (rule checkpoint_step_cache_indep)
next
  fix st' assume "checkpoint_step e [] mp st = Inr st'"
  then show "wmt_source_cache st' = None" and "ar_source_cache st' = None"
    using checkpoint_step_no_files by blast+
next
  assume h: "pre \<noteq> [] \<and> fs \<noteq> [] \<and> checkpoints_loop e fs pre (initial disk) = Inr st"
  then obtain mp0 pre' where pre: "pre = mp0 # pre'" by (cases pre) auto
  from h obtain f rest where fs: "fs = f # rest" by (cases fs) auto
  from h pre obtain s0 where "checkpoint_step e fs mp0 (initial disk) = Inr s0"
    by (auto simp: ebind_eq_Inr)
  then have t: "tagged (basename f)"
    unfolding fs by (rule first_file_tagged) (simp add: initial_def)
  have "st\<lparr>wmt_source_cache := x, ar_source_cache := y, preds := p\<rparr>
          = (st\<lparr>preds := p\<rparr>)\<lparr>wmt_source_cache := x, ar_source_cache := y\<rparr>"
    by simp
  then have "checkpoint_step e fs mp (st\<lparr>wmt_source_cache := x, ar_source_cache := y, preds := p\<rparr>)
          = checkpoint_step e fs mp (st\<lparr>preds := p\<rparr>)"
    by (simp only: checkpoint_step_cache_indep)
  also have "\<dots> = checkpoint_step e fs mp st"
    unfolding fs by (rule checkpoint_step_preds_indep[OF t])
  finally show "checkpoint_step e fs mp (st\<lparr>wmt_source_cache := x, ar_source_cache := y, preds := p\<rparr>)
              = checkpoint_step e fs mp st" .
qed

theorem caches_reset_per_checkpoint_witness:
  "checkpoints_loop demo_env [''wmtp_a.json''] [''m/bert.ML1/ckpt''] (initial demo_disk) = Inr demo_first
   \<and> wmt_source_cache demo_first = Some [1/2] \<and> preds demo_first = Some [2/3]
   \<and> checkpoint_step demo_env [''wmtp_a.json''] ''m/xlm-roberta.ML1/ckpt''
        (demo_first\<lparr>wmt_source_cache := Some [9/10], ar_source_cache := Some [9/10], preds := Some [9/10]\<rparr>)
      = checkpoint_step demo_env [''wmtp_a.json''] ''m/xlm-roberta.ML1/ckpt'' demo_first"
proof -
  have h: "[''m/bert.ML1/ckpt''] \<noteq> [] \<and> [''wmtp_a.json''] \<noteq> []
      \<and> checkpoints_loop demo_env [''wmtp_a.json''] [''m/bert.ML1/ckpt''] (initial demo_disk) = Inr demo_first"
    using demo_first_run by simp
  note inst = caches_reset_per_checkpoint[where e = demo_env and fs = "[''wmtp_a.json'']"
      and mp = "''m/xlm-roberta.ML1/ckpt''" and st = demo_first and x = "Some [9/10]"
      and y = "Some [9/10]" and pre = "[''m/bert.ML1/ckpt'']" and disk = demo_disk
      and p = "Some [9/10]",
      THEN conjunct2, THEN conjunct2]
  from mp[OF inst h] demo_first_run demo_first_caches show ?thesis
    by (intro conjI)
qed

end
